theory Spec2Isabelle
  imports Complex_Main "HOL-Library.Sublist"
begin

section \<open>Texts\<close>

text \<open>
  A Python \<open>str\<close> is modelled as a \<open>string\<close>: a list of characters whose length is the
  number of characters, as \<open>len\<close> counts them. Isabelle's \<open>char\<close> has the code points 0 to 255,
  so the model covers texts over that range; on it, \<open>is_space\<close> is Python's \<open>str.isspace\<close>
  (which is also what \<open>\s\<close> matches in a \<open>str\<close> pattern and what \<open>strip()\<close> removes) and
  \<open>lower\<close> is \<open>str.lower\<close>.
\<close>

definition newline :: char where
  "newline = CHR 0x0A"

definition is_space :: "char \<Rightarrow> bool" where
  "is_space c =
     (let n = (of_char c :: nat)
      in (9 \<le> n \<and> n \<le> 13) \<or> (28 \<le> n \<and> n \<le> 32) \<or> n = 133 \<or> n = 160)"

definition lower_char :: "char \<Rightarrow> char" where
  "lower_char c =
     (let n = (of_char c :: nat)
      in if (65 \<le> n \<and> n \<le> 90) \<or> (192 \<le> n \<and> n \<le> 222 \<and> n \<noteq> 215)
         then char_of (n + 32) else c)"

definition lower :: "string \<Rightarrow> string" where
  "lower s = map lower_char s"

text \<open>\<open>sub in s\<close>: the text \<open>sub\<close> occurs in \<open>s\<close> as a contiguous run.\<close>

fun contains :: "string \<Rightarrow> string \<Rightarrow> bool" where
  "contains sub [] = (sub = [])"
| "contains sub (c # cs) = (prefix sub (c # cs) \<or> contains sub cs)"

text \<open>\<open>s.strip()\<close> with no argument removes leading and trailing whitespace.\<close>

definition strip :: "string \<Rightarrow> string" where
  "strip s = rev (dropWhile is_space (rev (dropWhile is_space s)))"

section \<open>Token Estimator\<close>

text \<open>
  The exact tokenizer (\<open>tiktoken\<close>) is an optional external library. \<open>HAS_TIKTOKEN\<close> is
  modelled by an optional tokenizer: \<open>None\<close> when the import failed. A tokenizer takes an
  encoding name and a text and yields the token sequence, or \<open>None\<close> when
  \<open>get_encoding\<close> or \<open>encode\<close> raises.
\<close>

type_synonym tokenizer = "string \<Rightarrow> string \<Rightarrow> nat list option"

definition encoding_map :: "string \<rightharpoonup> string" where
  "encoding_map =
     [''gpt-4'' \<mapsto> ''cl100k_base'',
      ''gpt-4-turbo'' \<mapsto> ''cl100k_base'',
      ''gpt-3.5-turbo'' \<mapsto> ''cl100k_base'']"

definition heuristic_tokens :: "string \<Rightarrow> int" where
  "heuristic_tokens text = int (length text) div 4"

definition estimate_tokens :: "tokenizer option \<Rightarrow> string \<Rightarrow> string \<Rightarrow> int" where
  "estimate_tokens tiktoken text model =
     (case tiktoken of
        Some tk \<Rightarrow>
          (let encoding_name = (case encoding_map model of Some e \<Rightarrow> e | None \<Rightarrow> ''cl100k_base'')
           in case tk encoding_name text of
                Some toks \<Rightarrow> int (length toks)
              | None \<Rightarrow> heuristic_tokens text)
      | None \<Rightarrow> heuristic_tokens text)"

section \<open>Budget Checker\<close>

definition MODEL_TOKEN_LIMITS :: "string \<rightharpoonup> int" where
  "MODEL_TOKEN_LIMITS =
     [''gpt-4'' \<mapsto> 7000,
      ''gpt-4-turbo'' \<mapsto> 100000,
      ''gpt-3.5-turbo'' \<mapsto> 14000]"

text \<open>
  \<open>MODEL_TOKEN_LIMITS["gpt-4"]\<close> raises \<open>KeyError\<close> on a missing key; the key is in the
  table, and the lookup is written with the table's own entry.
\<close>

definition check_token_limit ::
  "tokenizer option \<Rightarrow> string \<Rightarrow> string \<Rightarrow> string \<Rightarrow> bool \<times> int \<times> int" where
  "check_token_limit tiktoken discovery_content observability_platform model =
     (let discovery_tokens = estimate_tokens tiktoken discovery_content model;
          limit = (case MODEL_TOKEN_LIMITS model of
                     Some l \<Rightarrow> l
                   | None \<Rightarrow> the (MODEL_TOKEN_LIMITS ''gpt-4''));
          exceeds_limit = (discovery_tokens > limit)
      in (exceeds_limit, discovery_tokens, limit))"

section \<open>Section-Aware Chunker\<close>

subsection \<open>The heading patterns\<close>

text \<open>
  The chunker splits with \<open>re.split\<close> on the patterns \<open>\n(##\s+.+?)\n\<close> and
  \<open>\n(###\s+.+?)\n\<close>. A match starts at a newline followed by the hashes; \<open>\s+\<close> is
  greedy and gives characters back one at a time, \<open>.+?\<close> is lazy, takes at least one
  character other than a newline and stops at the first newline.
  \<open>try_widths k s\<close> is the backtracking over the width of \<open>\s+\<close>, from \<open>k\<close> down to 1,
  on the text \<open>s\<close> after the hashes; it yields the rest of the captured group and the text
  after the closing newline.
\<close>

fun try_widths :: "nat \<Rightarrow> string \<Rightarrow> (string \<times> string) option" where
  "try_widths 0 s = None"
| "try_widths (Suc k) s =
     (case drop (Suc k) s of
        [] \<Rightarrow> try_widths k s
      | c # cs \<Rightarrow>
          if c = newline then try_widths k s
          else (case dropWhile (\<lambda>x. x \<noteq> newline) (c # cs) of
                  [] \<Rightarrow> try_widths k s
                | n # rest \<Rightarrow>
                    Some (take (Suc k) s @ takeWhile (\<lambda>x. x \<noteq> newline) (c # cs), rest)))"

definition match_heading :: "string \<Rightarrow> string \<Rightarrow> (string \<times> string) option" where
  "match_heading hashes s =
     (case s of
        [] \<Rightarrow> None
      | c # s0 \<Rightarrow>
          if c = newline \<and> prefix hashes s0
          then (let s1 = drop (length hashes) s0
                in case try_widths (length (takeWhile is_space s1)) s1 of
                     None \<Rightarrow> None
                   | Some (g, rest) \<Rightarrow> Some (hashes @ g, rest))
          else None)"

lemma dropWhile_Cons_shorter:
  "dropWhile P xs = n # rest \<Longrightarrow> length rest < length xs"
  using length_dropWhile_le [of P xs] by simp

lemma drop_Cons_length:
  "drop k s = c # cs \<Longrightarrow> Suc (length cs) \<le> length s"
proof -
  assume "drop k s = c # cs"
  then have "length (drop k s) = Suc (length cs)" by simp
  then show ?thesis by simp
qed

lemma try_widths_shorter:
  "try_widths k s = Some (g, rest) \<Longrightarrow> length rest < length s"
proof (induction k)
  case 0
  then show ?case by simp
next
  case (Suc k)
  show ?case
  proof (cases "drop (Suc k) s")
    case Nil
    with Suc show ?thesis by simp
  next
    case (Cons c cs)
    note dr = this
    show ?thesis
    proof (cases "c = newline")
      case True
      with Suc dr show ?thesis by simp
    next
      case False
      show ?thesis
      proof (cases "dropWhile (\<lambda>x. x \<noteq> newline) (c # cs)")
        case Nil
        with Suc dr False show ?thesis by (simp del: dropWhile.simps)
      next
        case (Cons n rest')
        from dropWhile_Cons_shorter [OF Cons] have "length rest' < Suc (length cs)" by simp
        moreover from Suc.prems dr False Cons have "rest = rest'"
          by (simp del: dropWhile.simps)
        ultimately show ?thesis using drop_Cons_length [OF dr] by simp
      qed
    qed
  qed
qed

lemma match_heading_shorter:
  "match_heading hashes s = Some (g, rest) \<Longrightarrow> length rest < length s"
  by (auto simp: match_heading_def Let_def split: list.splits if_splits option.splits
           dest!: try_widths_shorter)

text \<open>
  \<open>re.split(pattern, text)\<close> with one capturing group: the text before each leftmost,
  non-overlapping match, then the group, and at the end the text after the last match.
  \<open>re_split hashes piece s\<close> scans \<open>s\<close> with \<open>piece\<close> the text passed over since the
  last match; the call of the source is \<open>re_split hashes [] text\<close>.
\<close>

function re_split :: "string \<Rightarrow> string \<Rightarrow> string \<Rightarrow> string list" where
  "re_split hashes piece [] = [piece]"
| "re_split hashes piece (c # cs) =
     (case match_heading hashes (c # cs) of
        Some (g, rest) \<Rightarrow> piece # g # re_split hashes [] rest
      | None \<Rightarrow> re_split hashes (piece @ [c]) cs)"
  by pat_completeness auto
termination
  by (relation "measure (\<lambda>(hashes, piece, s). length s)")
     (auto dest: match_heading_shorter)

subsection \<open>Accumulating chunks\<close>

record chunk_state =
  chunks :: "string list"
  current_chunk :: string
  current_tokens :: int

text \<open>
  The source has the same block four times, for a subsection, a section with its header,
  a last header and regular content: close the running chunk when adding the piece would
  exceed the budget and the chunk is not empty, otherwise append the piece after a blank
  line (or start the chunk with it).
\<close>

definition add_piece :: "int \<Rightarrow> string \<Rightarrow> int \<Rightarrow> chunk_state \<Rightarrow> chunk_state" where
  "add_piece max_tokens piece piece_tokens st =
     (if current_tokens st + piece_tokens > max_tokens \<and> current_chunk st \<noteq> []
      then \<lparr>chunks = chunks st @ [current_chunk st],
            current_chunk = piece,
            current_tokens = piece_tokens\<rparr>
      else \<lparr>chunks = chunks st,
            current_chunk =
              (if current_chunk st \<noteq> [] then current_chunk st @ [newline, newline] @ piece
               else piece),
            current_tokens = current_tokens st + piece_tokens\<rparr>)"

text \<open>\<open>for j in range(0, len(subsections), 2)\<close>: the pieces two by two, a last one alone.\<close>

fun add_subsections ::
  "tokenizer option \<Rightarrow> string \<Rightarrow> int \<Rightarrow> string list \<Rightarrow> chunk_state \<Rightarrow> chunk_state" where
  "add_subsections tiktoken model max_tokens [] st = st"
| "add_subsections tiktoken model max_tokens [a] st =
     (let subsec = a
      in add_piece max_tokens subsec (estimate_tokens tiktoken subsec model) st)"
| "add_subsections tiktoken model max_tokens (a # b # rest) st =
     (let subsec = a @ [newline] @ b
      in add_subsections tiktoken model max_tokens rest
           (add_piece max_tokens subsec (estimate_tokens tiktoken subsec model) st))"

text \<open>
  The \<open>while i < len(sections)\<close> loop, on the sections from index \<open>i\<close> on. For the
  last section the source has two branches, a header without a following section and
  regular content, and both add the section as a piece.
\<close>

fun chunk_loop ::
  "tokenizer option \<Rightarrow> string \<Rightarrow> int \<Rightarrow> string list \<Rightarrow> chunk_state \<Rightarrow> chunk_state" where
  "chunk_loop tiktoken model max_tokens [] st = st"
| "chunk_loop tiktoken model max_tokens [section] st =
     chunk_loop tiktoken model max_tokens []
       (add_piece max_tokens section (estimate_tokens tiktoken section model) st)"
| "chunk_loop tiktoken model max_tokens (section # nxt # rest) st =
     (if prefix ''##'' section
      then (let section_with_header = section @ [newline] @ nxt;
                section_tokens = estimate_tokens tiktoken section_with_header model
            in chunk_loop tiktoken model max_tokens rest
                 (if section_tokens > max_tokens
                  then add_subsections tiktoken model max_tokens
                         (re_split ''###'' [] section_with_header) st
                  else add_piece max_tokens section_with_header section_tokens st))
      else chunk_loop tiktoken model max_tokens (nxt # rest)
             (add_piece max_tokens section (estimate_tokens tiktoken section model) st))"

definition chunk_discovery_content ::
  "tokenizer option \<Rightarrow> string \<Rightarrow> int \<Rightarrow> string \<Rightarrow> string list" where
  "chunk_discovery_content tiktoken discovery_content max_tokens model =
     (let sections = re_split ''##'' [] discovery_content;
          st = chunk_loop tiktoken model max_tokens sections
                 \<lparr>chunks = [], current_chunk = [], current_tokens = 0\<rparr>;
          chunks' = (if current_chunk st \<noteq> [] then chunks st @ [current_chunk st]
                     else chunks st)
      in if chunks' \<noteq> [] then chunks' else [discovery_content])"

text \<open>
  The pattern occurs in a text when \<open>match_heading\<close> succeeds at some position of it.
\<close>

fun heading_occurs :: "string \<Rightarrow> string \<Rightarrow> bool" where
  "heading_occurs hashes [] = False"
| "heading_occurs hashes (c # cs) =
     (match_heading hashes (c # cs) \<noteq> None \<or> heading_occurs hashes cs)"

subsection \<open>Lines and joins\<close>

text \<open>
  \<open>split_lines\<close> cuts a text at its newlines; \<open>nonempty_lines\<close> keeps the lines that
  are not empty. \<open>join_chunks\<close> is \<open>"\n\n".join(chunks)\<close>, and \<open>join_nl\<close> joins with a
  single newline. \<open>state_lines\<close> are the non-empty lines held by the chunks closed so far
  and the running chunk.
\<close>

fun split_lines :: "string \<Rightarrow> string list" where
  "split_lines [] = [[]]"
| "split_lines (c # cs) =
     (if c = newline then [] # split_lines cs
      else (case split_lines cs of l # ls \<Rightarrow> (c # l) # ls | [] \<Rightarrow> [[c]]))"

definition nonempty_lines :: "string \<Rightarrow> string list" where
  "nonempty_lines t = filter (\<lambda>l. l \<noteq> []) (split_lines t)"

fun join_chunks :: "string list \<Rightarrow> string" where
  "join_chunks [] = []"
| "join_chunks [c] = c"
| "join_chunks (c # d # cs) = c @ [newline, newline] @ join_chunks (d # cs)"

fun join_nl :: "string list \<Rightarrow> string" where
  "join_nl [] = []"
| "join_nl [s] = s"
| "join_nl (s # t # ss) = s @ newline # join_nl (t # ss)"

definition state_lines :: "chunk_state \<Rightarrow> string list" where
  "state_lines st =
     concat (map nonempty_lines (chunks st)) @ nonempty_lines (current_chunk st)"

subsection \<open>The pieces of a text\<close>

text \<open>
  The pieces that the loop adds one after the other, in order. \<open>subsection_pieces\<close> are those
  of the loop over the subsections, \<open>pieces\<close> those of the loop over the sections: a section
  that starts with \<open>##\<close> is joined to the next one by a newline, and the result is one piece,
  or is split again on the \<open>###\<close> pattern when its estimate exceeds the budget.
  \<open>units\<close> are the pieces when no estimate exceeds the budget. \<open>add_pieces\<close> adds a list
  of pieces to a state.
\<close>

fun subsection_pieces :: "string list \<Rightarrow> string list" where
  "subsection_pieces [] = []"
| "subsection_pieces [a] = [a]"
| "subsection_pieces (a # b # rest) = (a @ [newline] @ b) # subsection_pieces rest"

fun pieces :: "tokenizer option \<Rightarrow> string \<Rightarrow> int \<Rightarrow> string list \<Rightarrow> string list" where
  "pieces tiktoken model max_tokens [] = []"
| "pieces tiktoken model max_tokens [sec] = [sec]"
| "pieces tiktoken model max_tokens (sec # nxt # rest) =
     (if prefix ''##'' sec
      then (let section_with_header = sec @ [newline] @ nxt
            in (if estimate_tokens tiktoken section_with_header model > max_tokens
                then subsection_pieces (re_split ''###'' [] section_with_header)
                else [section_with_header])
               @ pieces tiktoken model max_tokens rest)
      else sec # pieces tiktoken model max_tokens (nxt # rest))"

fun units :: "string list \<Rightarrow> string list" where
  "units [] = []"
| "units [sec] = [sec]"
| "units (sec # nxt # rest) =
     (if prefix ''##'' sec then (sec @ [newline] @ nxt) # units rest
      else sec # units (nxt # rest))"

fun add_pieces ::
  "tokenizer option \<Rightarrow> string \<Rightarrow> int \<Rightarrow> string list \<Rightarrow> chunk_state \<Rightarrow> chunk_state" where
  "add_pieces tiktoken model max_tokens [] st = st"
| "add_pieces tiktoken model max_tokens (p # ps) st =
     add_pieces tiktoken model max_tokens ps
       (add_piece max_tokens p (estimate_tokens tiktoken p model) st)"

text \<open>
  \<open>drops_empties ps kept\<close>: the list \<open>kept\<close> is the list \<open>ps\<close> without some of its empty
  texts.
\<close>

fun drops_empties :: "string list \<Rightarrow> string list \<Rightarrow> bool" where
  "drops_empties [] kept = (kept = [])"
| "drops_empties (p # ps) kept =
     ((p = [] \<and> drops_empties ps kept) \<or>
      (case kept of [] \<Rightarrow> False | k # ks \<Rightarrow> k = p \<and> drops_empties ps ks))"

section \<open>Resilient Call Orchestrator\<close>

subsection \<open>Exceptions, responses and the client\<close>

text \<open>
  One type for the exceptions that occur: the four classes imported from the \<open>openai\<close>
  library, each with its message \<open>str(e)\<close>, and the built-in \<open>ValueError\<close>,
  \<open>TimeoutError\<close>, \<open>OverflowError\<close> and \<open>Exception\<close>. \<open>APIError\<close> stands for an
  instance of \<open>APIError\<close> that is not of one of the three more specific classes, which the
  handlers test first; \<open>Exception\<close> stands for an instance of any other exception class.
\<close>

datatype exn =
    RateLimitError string
  | APITimeoutError string
  | APIConnectionError string
  | APIError string
  | ValueError string
  | TimeoutError string
  | OverflowError string
  | Exception string

fun str :: "exn \<Rightarrow> string" where
  "str (RateLimitError m) = m"
| "str (APITimeoutError m) = m"
| "str (APIConnectionError m) = m"
| "str (APIError m) = m"
| "str (ValueError m) = m"
| "str (TimeoutError m) = m"
| "str (OverflowError m) = m"
| "str (Exception m) = m"

text \<open>
  A response holds \<open>choices\<close>, which may be \<open>None\<close>; of a choice the code reads
  \<open>message.content\<close>, which may be \<open>None\<close>. The client returns a response (\<open>None\<close>
  for a falsy one) or raises.
\<close>

datatype choice = Choice (content: "string option")

datatype response = Response (choices: "choice list option")

datatype call_outcome = Returns "response option" | Raises exn

text \<open>
  The remote endpoint is an oracle: the outcome of a call is a function of the number of
  calls made before it in this run, the model name, the prompt and the timeout.
\<close>

type_synonym client = "nat \<Rightarrow> string \<Rightarrow> string \<Rightarrow> int \<Rightarrow> call_outcome"

text \<open>
  \<open>time.sleep\<close> belongs to the platform and is a parameter too: on a duration it yields the
  exception it raises, or \<open>None\<close> when it sleeps. \<open>time_sleep limit\<close> is the function of
  CPython on a platform whose timestamps reach \<open>limit\<close> seconds: a duration out of that
  range raises \<open>OverflowError\<close> (the wording of its message varies with the platform), a
  negative one \<open>ValueError\<close>.
\<close>

type_synonym sleeper = "real \<Rightarrow> exn option"

definition time_sleep :: "real \<Rightarrow> sleeper" where
  "time_sleep limit secs =
     (if secs < - limit \<or> limit < secs
      then Some (OverflowError ''timestamp out of range for platform time_t'')
      else if secs < 0 then Some (ValueError ''sleep length must be non-negative'')
      else None)"

text \<open>
  What a run does, in order: an attempt (model name, zero-based attempt index, outcome of
  the call) or a \<open>time.sleep\<close> that slept for a duration. The warnings printed on a retry or
  a fallback are not modelled.
\<close>

datatype event = Attempt string int call_outcome | Sleep real

subsection \<open>Decimal numerals in messages\<close>

definition digit_char :: "nat \<Rightarrow> char" where
  "digit_char d = char_of (48 + d)"

function str_nat :: "nat \<Rightarrow> string" where
  "str_nat n = (if n < 10 then [digit_char n] else str_nat (n div 10) @ [digit_char (n mod 10)])"
  by pat_completeness auto
termination
  by (relation "measure (\<lambda>n. n)") auto

declare str_nat.simps [simp del]

definition str_int :: "int \<Rightarrow> string" where
  "str_int i = (if i < 0 then CHR ''-'' # str_nat (nat (- i)) else str_nat (nat i))"

subsection \<open>One attempt\<close>

text \<open>
  The source text of the loop body does not parse as it stands. The \<open>try\<close> block holds the
  call alone: the four checks of lines 478 to 491 are written one level to the left, at the
  level of \<open>try\<close> itself, before the \<open>except\<close> clauses, and the \<open>return\<close> of line 493 is
  written one level inside the last check, under its \<open>raise\<close>. The model keeps every
  statement where the text nests it. The checks run when the call has returned;
  what they raise is a \<open>ValueError\<close>, which reaches the caller unchanged whether
  it passes through the clause \<open>except ValueError: raise\<close> or not. The \<open>return\<close> comes after a
  \<open>raise\<close> in the same block, so no run reaches it: when the four checks pass, the body of
  the loop has no statement left (\<open>None\<close>).
\<close>

definition validate_response :: "response option \<Rightarrow> exn option" where
  "validate_response response =
     (case response of
        None \<Rightarrow> Some (ValueError ''OpenAI API returned invalid response structure: no choices'')
      | Some r \<Rightarrow>
          (case choices r of
             None \<Rightarrow>
               Some (ValueError ''OpenAI API returned invalid response structure: no choices'')
           | Some [] \<Rightarrow>
               Some (ValueError ''OpenAI API returned invalid response structure: no choices'')
           | Some (c # cs) \<Rightarrow>
               if length (c # cs) = 0
               then Some (ValueError ''OpenAI API returned invalid response: empty choices array'')
               else (case content c of
                       None \<Rightarrow> Some (ValueError ''OpenAI API returned empty content in response'')
                     | Some generated_content \<Rightarrow>
                         if generated_content = []
                         then Some (ValueError ''OpenAI API returned empty content in response'')
                         else if strip generated_content = []
                         then Some (ValueError
                                ''OpenAI API returned only whitespace in response'')
                         else None)))"

text \<open>
  How an iteration of the retry loop ends: by an exception that leaves the loop, by
  \<open>continue\<close> after a sleep, by \<open>break\<close>, or at the end of the body (\<open>Next\<close>), after which
  the loop goes on with the next attempt index.
\<close>

datatype step = Raise exn | Continue real | Break | Next

text \<open>
  \<open>backoff_time = initial_backoff * (2 ** attempt)\<close>: \<open>initial_backoff\<close> is a float and
  the power is an integer, converted to a float for the product; the conversion raises
  \<open>OverflowError\<close> from \<open>2 ** 1024\<close> on.
  Durations are reals: the product of a float by a power of two is exact as long as it is in
  the range of the floats; beyond it the float is infinite, a duration that \<open>time.sleep\<close>
  refuses. Then \<open>time.sleep(backoff_time)\<close> and \<open>continue\<close>. An exception raised here, inside
  an \<open>except\<close> clause, leaves the loop.
\<close>

definition backoff_time :: "real \<Rightarrow> int \<Rightarrow> exn + real" where
  "backoff_time initial_backoff attempt =
     (if 1024 \<le> attempt then Inl (OverflowError ''int too large to convert to float'')
      else Inr (initial_backoff * 2 ^ nat attempt))"

definition sleep_and_continue :: "sleeper \<Rightarrow> real \<Rightarrow> int \<Rightarrow> step" where
  "sleep_and_continue sleep initial_backoff attempt =
     (case backoff_time initial_backoff attempt of
        Inl e \<Rightarrow> Raise e
      | Inr backoff \<Rightarrow>
          (case sleep backoff of
             Some e \<Rightarrow> Raise e
           | None \<Rightarrow> Continue backoff))"

definition attempt_of :: "int \<Rightarrow> int \<Rightarrow> string" where
  "attempt_of attempt max_retries =
     ''(attempt '' @ str_int (attempt + 1) @ ''/'' @ str_int (max_retries + 1) @ '')''"

definition is_authentication :: "string \<Rightarrow> bool" where
  "is_authentication m =
     (contains ''authentication'' (lower m) \<or> contains ''api key'' (lower m))"

definition is_transient :: "string \<Rightarrow> bool" where
  "is_transient m =
     list_ex (\<lambda>code. contains code (lower m)) [''500'', ''502'', ''503'', ''504'', ''429'']"

text \<open>The \<open>except\<close> clauses, in the order of the source.\<close>

definition on_exception ::
  "sleeper \<Rightarrow> exn \<Rightarrow> string \<Rightarrow> string list \<Rightarrow> int \<Rightarrow> int \<Rightarrow> int \<Rightarrow> real \<Rightarrow> step" where
  "on_exception sleep e model_name models_to_try attempt max_retries timeout initial_backoff =
     (let fallback = (model_name = ''gpt-4'' \<and> ''gpt-3.5-turbo'' \<in> set models_to_try)
      in case e of
        RateLimitError m \<Rightarrow>
          if attempt < max_retries
          then sleep_and_continue sleep initial_backoff attempt
          else if fallback then Break
          else Raise (Exception
                 (''Rate limit exceeded for '' @ model_name @ '' ''
                  @ attempt_of attempt max_retries @ ''. ''
                  @ ''Max retries exceeded. Please wait before retrying or use a different API key.''))
      | APITimeoutError m \<Rightarrow>
          if attempt < max_retries
          then sleep_and_continue sleep initial_backoff attempt
          else if fallback then Break
          else Raise (TimeoutError
                 (''Request to '' @ model_name @ '' timed out ''
                  @ attempt_of attempt max_retries @ ''. ''
                  @ ''Max retries exceeded after '' @ str_int timeout @ '' seconds. ''
                  @ ''The prompt may be too long or the API is experiencing delays.''))
      | APIConnectionError m \<Rightarrow>
          if attempt < max_retries
          then sleep_and_continue sleep initial_backoff attempt
          else if fallback then Break
          else Raise (Exception
                 (''Connection error with '' @ model_name @ '' ''
                  @ attempt_of attempt max_retries @ ''. ''
                  @ ''Max retries exceeded. Please check your internet connection and try again.''))
      | APIError m \<Rightarrow>
          if is_authentication m
          then Raise (ValueError
                 ''Invalid OpenAI API key. Please check your OPENAI_API_KEY environment variable.'')
          else if is_transient m \<and> attempt < max_retries
          then sleep_and_continue sleep initial_backoff attempt
          else if fallback \<and> is_transient m then Break
          else Raise (Exception (''OpenAI API error for '' @ model_name @ '': '' @ m))
      | ValueError m \<Rightarrow> Raise (ValueError m)
      | _ \<Rightarrow>
          if attempt < max_retries
          then sleep_and_continue sleep initial_backoff attempt
          else if fallback then Break
          else Raise (Exception (''Unexpected error calling '' @ model_name @ '': '' @ str e)))"

text \<open>
  One iteration: the call, the \<open>except\<close> clauses on what it raises, the checks on what it
  returns.
\<close>

definition attempt_step ::
  "sleeper \<Rightarrow> call_outcome \<Rightarrow> string \<Rightarrow> string list \<Rightarrow> int \<Rightarrow> int \<Rightarrow> int \<Rightarrow> real \<Rightarrow> step" where
  "attempt_step sleep outcome model_name models_to_try attempt max_retries timeout initial_backoff =
     (case outcome of
        Raises e \<Rightarrow>
          on_exception sleep e model_name models_to_try attempt max_retries timeout initial_backoff
      | Returns response \<Rightarrow>
          (case validate_response response of
             Some e \<Rightarrow> Raise e
           | None \<Rightarrow> Next))"

subsection \<open>The retry loop and the model loop\<close>

text \<open>
  \<open>for attempt in range(max_retries + 1)\<close>, from index \<open>attempt\<close> on, with \<open>calls\<close>
  the number of calls made so far. The loop raises, or ends (\<open>None\<close>) by \<open>break\<close> or
  because the range is exhausted. The variable \<open>last_exception\<close> is left out: it is read
  only by a \<open>continue\<close> at the end of the body of the model loop.
\<close>

function retry_loop ::
  "sleeper \<Rightarrow> client \<Rightarrow> string \<Rightarrow> int \<Rightarrow> int \<Rightarrow> real \<Rightarrow> string list \<Rightarrow> string \<Rightarrow> int \<Rightarrow> nat
   \<Rightarrow> exn option \<times> event list \<times> nat" where
  "retry_loop sleep cl prompt timeout max_retries initial_backoff models_to_try model_name attempt
     calls =
     (if attempt < max_retries + 1
      then (let outcome = cl calls model_name prompt timeout
            in case attempt_step sleep outcome model_name models_to_try attempt max_retries timeout
                      initial_backoff of
                 Raise e \<Rightarrow> (Some e, [Attempt model_name attempt outcome], Suc calls)
               | Break \<Rightarrow> (None, [Attempt model_name attempt outcome], Suc calls)
               | Continue backoff \<Rightarrow>
                   (case retry_loop sleep cl prompt timeout max_retries initial_backoff
                           models_to_try model_name (attempt + 1) (Suc calls) of
                      (r, evs, calls') \<Rightarrow>
                        (r, Attempt model_name attempt outcome # Sleep backoff # evs, calls'))
               | Next \<Rightarrow>
                   (case retry_loop sleep cl prompt timeout max_retries initial_backoff
                           models_to_try model_name (attempt + 1) (Suc calls) of
                      (r, evs, calls') \<Rightarrow>
                        (r, Attempt model_name attempt outcome # evs, calls')))
      else (None, [], calls))"
  by pat_completeness auto
termination
  by (relation "measure (\<lambda>(sleep, cl, prompt, timeout, max_retries, initial_backoff,
                            models_to_try, model_name, attempt, calls).
                          nat (max_retries + 1 - attempt))")
     auto

declare retry_loop.simps [simp del]

text \<open>
  \<open>for model_name in models_to_try\<close>, on the models still to try; after the last one the
  function raises.
\<close>

fun model_loop ::
  "sleeper \<Rightarrow> client \<Rightarrow> string \<Rightarrow> int \<Rightarrow> int \<Rightarrow> real \<Rightarrow> string list \<Rightarrow> string list \<Rightarrow> nat
   \<Rightarrow> exn \<times> event list" where
  "model_loop sleep cl prompt timeout max_retries initial_backoff models_to_try [] calls =
     (Exception ''All OpenAI models failed after retries'', [])"
| "model_loop sleep cl prompt timeout max_retries initial_backoff models_to_try (model_name # rest)
     calls =
     (case retry_loop sleep cl prompt timeout max_retries initial_backoff models_to_try model_name
             0 calls of
        (Some e, evs, calls') \<Rightarrow> (e, evs)
      | (None, evs, calls') \<Rightarrow>
          (case model_loop sleep cl prompt timeout max_retries initial_backoff models_to_try rest
                  calls' of
             (e, evs') \<Rightarrow> (e, evs @ evs')))"

definition candidate_models :: "string \<Rightarrow> string list" where
  "candidate_models model = (if model = ''gpt-4'' then [model, ''gpt-3.5-turbo''] else [model])"

text \<open>
  The outer \<open>try\<close>: a \<open>ValueError\<close> or a \<open>TimeoutError\<close> is raised again as it is,
  any other exception is wrapped.
\<close>

fun reraise :: "exn \<Rightarrow> exn" where
  "reraise (ValueError m) = ValueError m"
| "reraise (TimeoutError m) = TimeoutError m"
| "reraise e = Exception (''OpenAI API call failed: '' @ str e)"

text \<open>
  The result of a call is the text returned (\<open>Inr\<close>) or the exception raised (\<open>Inl\<close>),
  with the events of the run. The only \<open>return\<close> of the function is the one of line 493.
\<close>

definition call_openai_api ::
  "sleeper \<Rightarrow> client \<Rightarrow> string \<Rightarrow> string \<Rightarrow> int \<Rightarrow> int \<Rightarrow> real \<Rightarrow> (exn + string) \<times> event list"
  where
  "call_openai_api sleep cl prompt model timeout max_retries initial_backoff =
     (let models_to_try = candidate_models model
      in case model_loop sleep cl prompt timeout max_retries initial_backoff models_to_try
                models_to_try 0 of
           (e, evs) \<Rightarrow> (Inl (reraise e), evs))"

subsection \<open>Outcomes that end a run\<close>

text \<open>
  The outcomes of a call after which an attempt raises whatever the attempt index and the
  model are, with what it raises: a response that fails a check, a \<open>ValueError\<close> of the
  client and an \<open>APIError\<close> whose message names the authentication or the API key.
\<close>

fun final_of :: "call_outcome \<Rightarrow> exn option" where
  "final_of (Returns response) = validate_response response"
| "final_of (Raises (ValueError m)) = Some (ValueError m)"
| "final_of (Raises (APIError m)) =
     (if is_authentication m
      then Some (ValueError
             ''Invalid OpenAI API key. Please check your OPENAI_API_KEY environment variable.'')
      else None)"
| "final_of (Raises e) = None"

subsection \<open>Shapes of a run\<close>

text \<open>
  The failures after which the code retries with a backoff or moves to the next model: a
  rate limit, a timeout, a connection error, an \<open>APIError\<close> that is not an
  authentication error and whose message holds one of the codes 500, 502, 503, 504 and 429,
  and an exception of any other class but \<open>ValueError\<close>. \<open>passes\<close>: the call returned a
  response on which the four checks pass.
\<close>

fun transient_failure :: "call_outcome \<Rightarrow> bool" where
  "transient_failure (Returns response) = False"
| "transient_failure (Raises (RateLimitError m)) = True"
| "transient_failure (Raises (APITimeoutError m)) = True"
| "transient_failure (Raises (APIConnectionError m)) = True"
| "transient_failure (Raises (APIError m)) = (\<not> is_authentication m \<and> is_transient m)"
| "transient_failure (Raises (ValueError m)) = False"
| "transient_failure (Raises (TimeoutError m)) = True"
| "transient_failure (Raises (OverflowError m)) = True"
| "transient_failure (Raises (Exception m)) = True"




fun attempts_of :: "event list \<Rightarrow> (string \<times> int) list" where
  "attempts_of [] = []"
| "attempts_of (Attempt m a out # evs) = (m, a) # attempts_of evs"
| "attempts_of (Sleep d # evs) = attempts_of evs"

section \<open>Properties of the Token Estimator and the Budget Checker\<close>

lemma encoding_name_const:
  "(case encoding_map model of Some e \<Rightarrow> e | None \<Rightarrow> ''cl100k_base'') = ''cl100k_base''"
  by (simp add: encoding_map_def)

lemma estimate_tokens_Some:
  "estimate_tokens (Some tk) t model =
     (case tk ''cl100k_base'' t of
        Some toks \<Rightarrow> int (length toks)
      | None \<Rightarrow> int (length t) div 4)"
  by (simp add: estimate_tokens_def encoding_name_const heuristic_tokens_def
           split: option.splits)

lemma estimate_tokens_None: "estimate_tokens None t model = int (length t) div 4"
  by (simp add: estimate_tokens_def heuristic_tokens_def)

lemma estimate_tokens_nonneg: "0 \<le> estimate_tokens tiktoken t model"
  by (cases tiktoken)
     (auto simp: estimate_tokens_None estimate_tokens_Some split: option.splits)

text \<open>
  C5. \<open>estimate_tokens\<close> is a total function into the integers in which a raise of the
  tokenizer is the branch that falls back to the heuristic, so it never raises. For every
  text and model name its result is non-negative. Without a tokenizer, and when the
  tokenizer fails on the text, the result is the length of the text divided by 4, rounded
  down. The empty text is estimated at 0: always on the heuristic path, and on the exact
  path when the tokenizer fails or encodes the empty text to no token, as a sub-word
  tokenizer does.
\<close>

theorem estimate_tokens_contract:
  "0 \<le> estimate_tokens tiktoken t model \<and>
   estimate_tokens None t model = int (length t) div 4 \<and>
   (tk ''cl100k_base'' t = None \<longrightarrow>
      estimate_tokens (Some tk) t model = int (length t) div 4) \<and>
   estimate_tokens None [] model = 0 \<and>
   (tk ''cl100k_base'' [] = None \<or> tk ''cl100k_base'' [] = Some [] \<longrightarrow>
      estimate_tokens (Some tk) [] model = 0)"
  using estimate_tokens_nonneg [of tiktoken t model]
  by (auto simp: estimate_tokens_None estimate_tokens_Some)

theorem estimate_tokens_contract_witness:
  "estimate_tokens (Some (\<lambda>e t. if t = [] then Some [] else None)) ''abcdefghi'' ''gpt-4'' = 2 \<and>
   estimate_tokens (Some (\<lambda>e t. if t = [] then Some [] else None)) [] ''gpt-4'' = 0"
  using estimate_tokens_contract
    [of "Some (\<lambda>e t. if t = [] then Some [] else None)" "''abcdefghi''" "''gpt-4''"
        "\<lambda>e t. if t = [] then Some [] else None"]
  by simp

lemma limit_lookup:
  "(case MODEL_TOKEN_LIMITS model of
      Some l \<Rightarrow> l
    | None \<Rightarrow> the (MODEL_TOKEN_LIMITS ''gpt-4'')) =
     (if model = ''gpt-4'' then 7000
      else if model = ''gpt-4-turbo'' then 100000
      else if model = ''gpt-3.5-turbo'' then 14000
      else 7000)"
  by (simp add: MODEL_TOKEN_LIMITS_def)

text \<open>
  C6. For every text, platform and model name, \<open>check_token_limit\<close> returns
  \<open>(exceeds, tokens, limit)\<close> where \<open>tokens\<close> is \<open>estimate_tokens\<close> of the text,
  \<open>limit\<close> is the table entry of the model name, 7000 (the entry of gpt-4) for a name that
  is not in the table, and \<open>exceeds\<close> is \<open>tokens > limit\<close>. The call
  \<open>check_token_limit("short text", "gpt-4")\<close> passes "gpt-4" as the platform and takes the
  default model "gpt-4": it yields \<open>(False, 2, 7000)\<close> on the heuristic path, and
  \<open>exceeds = False\<close> with \<open>limit = 7000\<close> with any tokenizer that counts at most 7000
  tokens in "short text".
\<close>

theorem check_token_limit_contract:
  "check_token_limit tiktoken text platform model =
     (estimate_tokens tiktoken text model >
        (if model = ''gpt-4'' then 7000
         else if model = ''gpt-4-turbo'' then 100000
         else if model = ''gpt-3.5-turbo'' then 14000
         else 7000),
      estimate_tokens tiktoken text model,
      (if model = ''gpt-4'' then 7000
       else if model = ''gpt-4-turbo'' then 100000
       else if model = ''gpt-3.5-turbo'' then 14000
       else 7000)) \<and>
   (model \<notin> dom MODEL_TOKEN_LIMITS \<longrightarrow>
      snd (snd (check_token_limit tiktoken text platform model)) = 7000) \<and>
   check_token_limit None ''short text'' ''gpt-4'' ''gpt-4'' = (False, 2, 7000) \<and>
   (estimate_tokens tiktoken ''short text'' ''gpt-4'' \<le> 7000 \<longrightarrow>
      check_token_limit tiktoken ''short text'' ''gpt-4'' ''gpt-4'' =
        (False, estimate_tokens tiktoken ''short text'' ''gpt-4'', 7000))"
  unfolding check_token_limit_def Let_def limit_lookup
  by (auto simp: estimate_tokens_None MODEL_TOKEN_LIMITS_def dom_def)

theorem check_token_limit_contract_witness:
  "''my-model'' \<notin> dom MODEL_TOKEN_LIMITS \<and>
   check_token_limit (Some (\<lambda>e t. Some (map of_char t))) ''short text'' ''Dynatrace''
     ''my-model'' = (False, 10, 7000) \<and>
   check_token_limit (Some (\<lambda>e t. Some (map of_char t))) ''short text'' ''gpt-4'' ''gpt-4'' =
     (False, 10, 7000)"
  using check_token_limit_contract
    [of "Some (\<lambda>e t. Some (map of_char t))" "''short text''" "''Dynatrace''" "''my-model''"]
  by (simp add: estimate_tokens_Some MODEL_TOKEN_LIMITS_def dom_def)

section \<open>Properties of the Section-Aware Chunker\<close>

lemma re_split_no_match:
  "\<not> heading_occurs hashes s \<Longrightarrow> re_split hashes piece s = [piece @ s]"
  by (induction s arbitrary: piece) (auto split: option.splits)

text \<open>
  C10. For every text in which the pattern \<open>\n(##\s+.+?)\n\<close> does not occur, for every
  budget, tokenizer and model name, \<open>chunk_discovery_content\<close> returns the one-element
  list of the text itself, also when the estimate of the text exceeds the budget. This
  covers a text that starts with a heading and has no later one, a text without headings
  and the empty text.
\<close>

theorem chunk_markerless_single:
  "\<not> heading_occurs ''##'' t \<Longrightarrow> chunk_discovery_content tiktoken t max_tokens model = [t]"
  by (simp add: chunk_discovery_content_def re_split_no_match add_piece_def Let_def)

theorem chunk_markerless_single_witness:
  "\<not> heading_occurs ''##'' ''## Title\<newline>a long body of text'' \<and>
   chunk_discovery_content None ''## Title\<newline>a long body of text'' 1 ''gpt-4'' =
     [''## Title\<newline>a long body of text'']"
  using chunk_markerless_single [of "''## Title\<newline>a long body of text''" None 1 "''gpt-4''"]
  by (simp add: match_heading_def newline_def)

lemma split_lines_not_Nil: "split_lines t \<noteq> []"
  by (induction t) (auto split: list.splits)

lemma split_lines_append_newline:
  "split_lines (a @ newline # b) = split_lines a @ split_lines b"
proof (induction a)
  case Nil
  then show ?case by simp
next
  case (Cons c a)
  obtain l ls where "split_lines a = l # ls"
    using split_lines_not_Nil [of a] by (cases "split_lines a") auto
  with Cons show ?case by simp
qed

lemma nonempty_lines_Nil: "nonempty_lines [] = []"
  by (simp add: nonempty_lines_def)

lemma nonempty_lines_newline:
  "nonempty_lines (a @ newline # b) = nonempty_lines a @ nonempty_lines b"
  by (simp add: nonempty_lines_def split_lines_append_newline)

lemma nonempty_lines_blank_line:
  "nonempty_lines (a @ newline # newline # b) = nonempty_lines a @ nonempty_lines b"
  using nonempty_lines_newline [of a "newline # b"] nonempty_lines_newline [of "[]" b]
  by (simp add: nonempty_lines_Nil)

lemma nonempty_lines_join_nl:
  "nonempty_lines (join_nl xs) = concat (map nonempty_lines xs)"
  by (induction xs rule: join_nl.induct) (simp_all add: nonempty_lines_Nil nonempty_lines_newline)

lemma nonempty_lines_join_chunks:
  "nonempty_lines (join_chunks xs) = concat (map nonempty_lines xs)"
  by (induction xs rule: join_chunks.induct)
     (simp_all add: nonempty_lines_Nil nonempty_lines_blank_line)

lemma dropWhile_head:
  "dropWhile P xs = n # rest \<Longrightarrow> \<not> P n"
  using hd_dropWhile [of P xs] by auto

lemma try_widths_decomp:
  "try_widths k s = Some (g, rest) \<Longrightarrow> s = g @ newline # rest"
proof (induction k)
  case 0
  then show ?case by simp
next
  case (Suc k)
  show ?case
  proof (cases "drop (Suc k) s")
    case Nil
    with Suc show ?thesis by simp
  next
    case (Cons c cs)
    note dr = this
    show ?thesis
    proof (cases "c = newline")
      case True
      with Suc dr show ?thesis by simp
    next
      case False
      show ?thesis
      proof (cases "dropWhile (\<lambda>x. x \<noteq> newline) (c # cs)")
        case Nil
        with Suc dr False show ?thesis by (simp del: dropWhile.simps)
      next
        case (Cons n rest')
        from dropWhile_head [OF Cons] have n: "n = newline" by simp
        from Suc.prems dr False Cons
        have g: "g = take (Suc k) s @ takeWhile (\<lambda>x. x \<noteq> newline) (c # cs)" "rest = rest'"
          by (simp_all del: dropWhile.simps takeWhile.simps)
        have "s = take (Suc k) s @ drop (Suc k) s" by simp
        also have "drop (Suc k) s = takeWhile (\<lambda>x. x \<noteq> newline) (c # cs) @
            dropWhile (\<lambda>x. x \<noteq> newline) (c # cs)"
          unfolding dr by simp
        finally show ?thesis unfolding Cons g n by simp
      qed
    qed
  qed
qed

lemma match_heading_decomp:
  assumes "match_heading hashes s = Some (g, rest)"
  shows "s = newline # g @ newline # rest"
proof (cases s)
  case Nil
  with assms show ?thesis by (simp add: match_heading_def)
next
  case (Cons c s0)
  with assms have c: "c = newline" and p: "prefix hashes s0"
    by (auto simp: match_heading_def split: if_splits)
  from p obtain s1 where s0: "s0 = hashes @ s1" by (auto simp: prefix_def)
  with assms Cons c p obtain g' where tw: "try_widths (length (takeWhile is_space s1)) s1 = Some (g', rest)"
    and g: "g = hashes @ g'"
    by (auto simp: match_heading_def Let_def split: option.splits)
  from try_widths_decomp [OF tw] Cons c s0 g show ?thesis by simp
qed

lemma re_split_not_Nil: "re_split hashes piece s \<noteq> []"
  by (induction hashes piece s rule: re_split.induct) (auto split: option.splits)

lemma join_nl_Cons: "xs \<noteq> [] \<Longrightarrow> join_nl (x # xs) = x @ newline # join_nl xs"
  by (cases xs) simp_all

lemma re_split_join: "join_nl (re_split hashes piece s) = piece @ s"
proof (induction hashes piece s rule: re_split.induct)
  case (1 hashes piece)
  then show ?case by simp
next
  case (2 hashes piece c cs)
  show ?case
  proof (cases "match_heading hashes (c # cs)")
    case None
    with 2 show ?thesis by simp
  next
    case (Some a)
    obtain g rest where a: "a = (g, rest)" by (cases a)
    from match_heading_decomp [OF Some [unfolded a]]
    have dec: "c # cs = newline # g @ newline # rest" .
    from "2.IH"(2) [OF Some [unfolded a] refl]
    have "join_nl (re_split hashes [] rest) = rest" by simp
    then have "join_nl (piece # g # re_split hashes [] rest) = piece @ newline # g @ newline # rest"
      by (simp add: join_nl_Cons re_split_not_Nil)
    with Some a dec show ?thesis by simp
  qed
qed

lemma add_piece_lines:
  "state_lines (add_piece max_tokens piece piece_tokens st) = state_lines st @ nonempty_lines piece"
  using nonempty_lines_blank_line [of "current_chunk st" piece]
  by (simp add: add_piece_def state_lines_def nonempty_lines_Nil)

lemma add_subsections_lines:
  "state_lines (add_subsections tiktoken model max_tokens xs st) =
     state_lines st @ concat (map nonempty_lines xs)"
proof (induction tiktoken model max_tokens xs st rule: add_subsections.induct)
  case (1 tiktoken model max_tokens st)
  then show ?case by simp
next
  case (2 tiktoken model max_tokens a st)
  then show ?case by (simp add: add_piece_lines)
next
  case (3 tiktoken model max_tokens a b rest st)
  then show ?case by (simp add: Let_def add_piece_lines nonempty_lines_newline)
qed

lemma chunk_loop_lines:
  "state_lines (chunk_loop tiktoken model max_tokens sections st) =
     state_lines st @ concat (map nonempty_lines sections)"
proof (induction tiktoken model max_tokens sections st rule: chunk_loop.induct)
  case (1 tiktoken model max_tokens st)
  then show ?case by simp
next
  case (2 tiktoken model max_tokens sec st)
  then show ?case by (simp add: add_piece_lines)
next
  case (3 tiktoken model max_tokens sec nxt rest st)
  let ?swh = "sec @ [newline] @ nxt"
  have sub: "concat (map nonempty_lines (re_split ''###'' [] ?swh)) =
      nonempty_lines sec @ nonempty_lines nxt"
    using nonempty_lines_join_nl [of "re_split ''###'' [] ?swh"]
    by (simp add: re_split_join nonempty_lines_newline)
  show ?case
  proof (cases "prefix ''##'' sec")
    case True
    show ?thesis
    proof (cases "estimate_tokens tiktoken ?swh model > max_tokens")
      case over: True
      from "3.IH"(1) [OF True refl refl] over True sub show ?thesis
        by (simp add: Let_def add_subsections_lines)
    next
      case under: False
      from "3.IH"(1) [OF True refl refl] under True show ?thesis
        by (simp add: Let_def add_piece_lines nonempty_lines_newline)
    qed
  next
    case False
    from "3.IH"(2) [OF False] False show ?thesis
      by (simp add: add_piece_lines)
  qed
qed

lemma chunk_lines_preserved:
  "nonempty_lines (join_chunks (chunk_discovery_content tiktoken t max_tokens model)) =
     nonempty_lines t"
proof -
  let ?init = "\<lparr>chunks = [], current_chunk = [], current_tokens = 0\<rparr>"
  let ?st = "chunk_loop tiktoken model max_tokens (re_split ''##'' [] t) ?init"
  let ?cs = "if current_chunk ?st \<noteq> [] then chunks ?st @ [current_chunk ?st] else chunks ?st"
  have "state_lines ?init = []"
    by (simp add: state_lines_def nonempty_lines_Nil)
  then have "state_lines ?st = concat (map nonempty_lines (re_split ''##'' [] t))"
    by (simp add: chunk_loop_lines)
  also have "\<dots> = nonempty_lines t"
    using nonempty_lines_join_nl [of "re_split ''##'' [] t"] by (simp add: re_split_join)
  finally have sl: "state_lines ?st = nonempty_lines t" .
  have cs: "concat (map nonempty_lines ?cs) = state_lines ?st"
    by (simp add: state_lines_def nonempty_lines_Nil)
  show ?thesis
  proof (cases "?cs = []")
    case True
    then have "chunk_discovery_content tiktoken t max_tokens model = [t]"
      by (simp add: chunk_discovery_content_def Let_def)
    then show ?thesis by simp
  next
    case False
    then have "chunk_discovery_content tiktoken t max_tokens model = ?cs"
      by (simp add: chunk_discovery_content_def Let_def)
    with cs sl show ?thesis by (simp add: nonempty_lines_join_chunks)
  qed
qed

lemma chunk_not_Nil: "chunk_discovery_content tiktoken t max_tokens model \<noteq> []"
  by (simp add: chunk_discovery_content_def Let_def)

lemma join_nl_append:
  "xs \<noteq> [] \<Longrightarrow> ys \<noteq> [] \<Longrightarrow> join_nl (xs @ ys) = join_nl xs @ newline # join_nl ys"
proof (induction xs rule: join_nl.induct)
  case 1
  then show ?case by simp
next
  case (2 s)
  then show ?case by (simp add: join_nl_Cons)
next
  case (3 s t ss)
  then show ?case by simp
qed

lemma subsection_pieces_Nil: "subsection_pieces xs = [] \<longleftrightarrow> xs = []"
  by (induction xs rule: subsection_pieces.induct) simp_all

lemma subsection_pieces_join: "join_nl (subsection_pieces xs) = join_nl xs"
proof (induction xs rule: subsection_pieces.induct)
  case 1
  then show ?case by simp
next
  case (2 a)
  then show ?case by simp
next
  case (3 a b rest)
  show ?case
  proof (cases rest)
    case Nil
    then show ?thesis by simp
  next
    case (Cons r rs)
    then have "subsection_pieces rest \<noteq> []" by (simp add: subsection_pieces_Nil)
    with 3 Cons show ?thesis by (simp add: join_nl_Cons)
  qed
qed

lemma pieces_Nil: "pieces tiktoken model max_tokens secs = [] \<longleftrightarrow> secs = []"
  by (induction tiktoken model max_tokens secs rule: pieces.induct)
     (simp_all add: Let_def subsection_pieces_Nil re_split_not_Nil)

lemma pieces_join: "join_nl (pieces tiktoken model max_tokens secs) = join_nl secs"
proof (induction tiktoken model max_tokens secs rule: pieces.induct)
  case (1 tiktoken model max_tokens)
  then show ?case by simp
next
  case (2 tiktoken model max_tokens sec)
  then show ?case by simp
next
  case (3 tiktoken model max_tokens sec nxt rest)
  let ?swh = "sec @ [newline] @ nxt"
  let ?first = "if estimate_tokens tiktoken ?swh model > max_tokens
                then subsection_pieces (re_split ''###'' [] ?swh) else [?swh]"
  have first: "?first \<noteq> []" "join_nl ?first = ?swh"
    by (simp_all add: subsection_pieces_Nil re_split_not_Nil subsection_pieces_join re_split_join)
  show ?case
  proof (cases "prefix ''##'' sec")
    case True
    then have eq: "pieces tiktoken model max_tokens (sec # nxt # rest) =
        ?first @ pieces tiktoken model max_tokens rest"
      by (simp add: Let_def)
    show ?thesis
    proof (cases rest)
      case Nil
      with eq first(2) show ?thesis by simp
    next
      case (Cons r rs)
      then have ne: "pieces tiktoken model max_tokens rest \<noteq> []" by (simp add: pieces_Nil)
      from "3.IH"(1) [OF True refl]
      have "join_nl (pieces tiktoken model max_tokens rest) = join_nl rest" .
      with join_nl_append [OF first(1) ne] first(2) eq Cons show ?thesis by simp
    qed
  next
    case False
    have ne: "pieces tiktoken model max_tokens (nxt # rest) \<noteq> []" by (simp add: pieces_Nil)
    from "3.IH"(2) [OF False] False ne show ?thesis by (simp add: join_nl_Cons)
  qed
qed

lemma add_pieces_append:
  "add_pieces tiktoken model max_tokens (xs @ ys) st =
     add_pieces tiktoken model max_tokens ys (add_pieces tiktoken model max_tokens xs st)"
  by (induction xs arbitrary: st) simp_all

lemma add_subsections_pieces:
  "add_subsections tiktoken model max_tokens xs st =
     add_pieces tiktoken model max_tokens (subsection_pieces xs) st"
  by (induction tiktoken model max_tokens xs st rule: add_subsections.induct)
     (simp_all add: Let_def)

lemma chunk_loop_pieces:
  "chunk_loop tiktoken model max_tokens secs st =
     add_pieces tiktoken model max_tokens (pieces tiktoken model max_tokens secs) st"
  by (induction tiktoken model max_tokens secs st rule: chunk_loop.induct)
     (simp_all add: Let_def add_pieces_append add_subsections_pieces)

lemma join_chunks_Cons:
  "join_chunks (c # ps) = c @ (if ps = [] then [] else [newline, newline] @ join_chunks ps)"
  by (cases ps) simp_all

lemma join_chunks_append:
  "xs \<noteq> [] \<Longrightarrow> ys \<noteq> [] \<Longrightarrow>
   join_chunks (xs @ ys) = join_chunks xs @ [newline, newline] @ join_chunks ys"
  by (induction xs rule: join_chunks.induct) (simp_all add: join_chunks_Cons)

lemma join_chunks_empty:
  "cur = [] \<or> hd cur \<noteq> [] \<Longrightarrow> join_chunks cur = [] \<longleftrightarrow> cur = []"
  by (cases cur) (auto simp: join_chunks_Cons)

lemma join_chunks_concat:
  "[] \<notin> set blocks \<Longrightarrow> join_chunks (map join_chunks blocks) = join_chunks (concat blocks)"
proof (induction blocks)
  case Nil
  then show ?case by simp
next
  case (Cons b bs)
  show ?case
  proof (cases bs)
    case Nil
    then show ?thesis by simp
  next
    case (Cons b' bs')
    with Cons.prems have ne: "b \<noteq> []" "concat bs \<noteq> []" by auto
    from Cons.IH Cons.prems
    have "join_chunks (map join_chunks bs) = join_chunks (concat bs)" by simp
    with join_chunks_append [OF ne] Cons show ?thesis by (simp add: join_chunks_Cons)
  qed
qed

lemma drops_empties_keep:
  "drops_empties xs ys \<Longrightarrow> drops_empties (xs @ [p]) (ys @ [p])"
  by (induction xs ys rule: drops_empties.induct) (auto split: list.splits)

lemma drops_empties_drop:
  "drops_empties xs ys \<Longrightarrow> drops_empties (xs @ [[]]) ys"
  by (induction xs ys rule: drops_empties.induct) (auto split: list.splits)

lemma drops_empties_Nil: "drops_empties ps [] \<longleftrightarrow> (\<forall>p\<in>set ps. p = [])"
  by (induction ps) auto

lemma drops_empties_single:
  "ps \<noteq> [] \<Longrightarrow> \<forall>p\<in>set ps. p = [] \<Longrightarrow> drops_empties ps [[]]"
  by (induction ps) (auto simp: drops_empties_Nil)

lemma add_piece_blocks:
  assumes "drops_empties seen (concat blocks @ cur)"
    and "chunks st = map join_chunks blocks" and "[] \<notin> set blocks"
    and "current_chunk st = join_chunks cur" and "cur = [] \<or> hd cur \<noteq> []"
  shows "\<exists>blocks' cur'.
           drops_empties (seen @ [p]) (concat blocks' @ cur') \<and>
           chunks (add_piece max_tokens p c st) = map join_chunks blocks' \<and>
           [] \<notin> set blocks' \<and>
           current_chunk (add_piece max_tokens p c st) = join_chunks cur' \<and>
           (cur' = [] \<or> hd cur' \<noteq> [])"
proof -
  define keep where "keep = (if p = [] then [] else [p])"
  have kept: "drops_empties (seen @ [p]) ((concat blocks @ cur) @ keep)"
    using assms(1) drops_empties_keep [of seen "concat blocks @ cur" p]
      drops_empties_drop [of seen "concat blocks @ cur"]
    by (auto simp: keep_def)
  have keep: "join_chunks keep = p" "keep = [] \<or> hd keep \<noteq> []"
    by (simp_all add: keep_def)
  from assms(4,5) have cur: "current_chunk st = [] \<longleftrightarrow> cur = []"
    by (simp add: join_chunks_empty)
  show ?thesis
  proof (cases "current_tokens st + c > max_tokens \<and> current_chunk st \<noteq> []")
    case True
    then have st': "chunks (add_piece max_tokens p c st) = chunks st @ [current_chunk st]"
      "current_chunk (add_piece max_tokens p c st) = p"
      by (simp_all add: add_piece_def)
    from True cur have ne: "cur \<noteq> []" by simp
    have "drops_empties (seen @ [p]) (concat (blocks @ [cur]) @ keep)"
      using kept by simp
    moreover have "chunks (add_piece max_tokens p c st) = map join_chunks (blocks @ [cur])"
      using st' assms(2,4) by simp
    moreover have "[] \<notin> set (blocks @ [cur])" using assms(3) ne by simp
    moreover have "current_chunk (add_piece max_tokens p c st) = join_chunks keep"
      using st' keep by simp
    ultimately show ?thesis using keep(2) by blast
  next
    case False
    then have st': "chunks (add_piece max_tokens p c st) = chunks st"
      "current_chunk (add_piece max_tokens p c st) =
         (if current_chunk st \<noteq> [] then current_chunk st @ [newline, newline] @ p else p)"
      by (simp_all add: add_piece_def)
    show ?thesis
    proof (cases "cur = []")
      case True
      with cur st' keep have "current_chunk (add_piece max_tokens p c st) = join_chunks keep"
        by simp
      moreover have "drops_empties (seen @ [p]) (concat blocks @ keep)"
        using kept True by simp
      moreover have "chunks (add_piece max_tokens p c st) = map join_chunks blocks"
        using st'(1) assms(2) by simp
      ultimately show ?thesis using keep(2) assms(3) by blast
    next
      case ne: False
      with cur st' assms(4)
      have "current_chunk (add_piece max_tokens p c st) = join_chunks (cur @ [p])"
        by (simp add: join_chunks_append)
      moreover have "drops_empties (seen @ [p]) (concat blocks @ (cur @ [p]))"
        using assms(1) drops_empties_keep [of seen "concat blocks @ cur" p] by simp
      moreover have "cur @ [p] = [] \<or> hd (cur @ [p]) \<noteq> []"
        using ne assms(5) by simp
      moreover have "chunks (add_piece max_tokens p c st) = map join_chunks blocks"
        using st'(1) assms(2) by simp
      ultimately show ?thesis using assms(3) by blast
    qed
  qed
qed

lemma add_pieces_blocks:
  "drops_empties seen (concat blocks @ cur) \<Longrightarrow>
   chunks st = map join_chunks blocks \<Longrightarrow> [] \<notin> set blocks \<Longrightarrow>
   current_chunk st = join_chunks cur \<Longrightarrow> cur = [] \<or> hd cur \<noteq> [] \<Longrightarrow>
   \<exists>blocks' cur'.
     drops_empties (seen @ ps) (concat blocks' @ cur') \<and>
     chunks (add_pieces tiktoken model max_tokens ps st) = map join_chunks blocks' \<and>
     [] \<notin> set blocks' \<and>
     current_chunk (add_pieces tiktoken model max_tokens ps st) = join_chunks cur' \<and>
     (cur' = [] \<or> hd cur' \<noteq> [])"
proof (induction ps arbitrary: seen blocks cur st)
  case Nil
  then show ?case by auto
next
  case (Cons p ps)
  let ?st = "add_piece max_tokens p (estimate_tokens tiktoken p model) st"
  from add_piece_blocks [OF Cons.prems, of p max_tokens "estimate_tokens tiktoken p model"]
  obtain blocks1 cur1 where s1:
    "drops_empties (seen @ [p]) (concat blocks1 @ cur1)"
    "chunks ?st = map join_chunks blocks1" "[] \<notin> set blocks1"
    "current_chunk ?st = join_chunks cur1" "cur1 = [] \<or> hd cur1 \<noteq> []"
    by blast
  from Cons.IH [OF s1] show ?case by simp
qed

lemma match_heading_prefix:
  "match_heading hashes s = Some (g, rest) \<Longrightarrow> prefix hashes g"
  by (auto simp: match_heading_def Let_def split: list.splits if_splits option.splits)

lemma re_split_all_empty:
  "\<forall>x\<in>set (re_split hashes piece s). x = [] \<Longrightarrow> hashes \<noteq> [] \<Longrightarrow> piece @ s = []"
proof (induction hashes piece s rule: re_split.induct)
  case (1 hashes piece)
  then show ?case by simp
next
  case (2 hashes piece c cs)
  show ?case
  proof (cases "match_heading hashes (c # cs)")
    case None
    with "2.IH"(1) [OF None] "2.prems" show ?thesis by simp
  next
    case (Some a)
    obtain g rest where a: "a = (g, rest)" by (cases a)
    from match_heading_prefix [OF Some [unfolded a]] "2.prems"(2) have "g \<noteq> []" by auto
    with "2.prems"(1) Some a show ?thesis by simp
  qed
qed

lemma join_nl_all_empty:
  "\<forall>x\<in>set xs. x = [] \<Longrightarrow> set (join_nl xs) \<subseteq> {newline}"
  by (induction xs rule: join_nl.induct) auto

lemma pieces_all_empty:
  "\<forall>p\<in>set (pieces tiktoken model max_tokens secs). p = [] \<Longrightarrow> \<forall>s\<in>set secs. s = []"
proof (induction tiktoken model max_tokens secs rule: pieces.induct)
  case (1 tiktoken model max_tokens)
  then show ?case by simp
next
  case (2 tiktoken model max_tokens sec)
  then show ?case by simp
next
  case (3 tiktoken model max_tokens sec nxt rest)
  let ?swh = "sec @ [newline] @ nxt"
  let ?first = "if estimate_tokens tiktoken ?swh model > max_tokens
                then subsection_pieces (re_split ''###'' [] ?swh) else [?swh]"
  show ?case
  proof (cases "prefix ''##'' sec")
    case True
    then have eq: "pieces tiktoken model max_tokens (sec # nxt # rest) =
        ?first @ pieces tiktoken model max_tokens rest"
      by (simp add: Let_def)
    with "3.prems" have "\<forall>p\<in>set ?first. p = []" by simp
    from join_nl_all_empty [OF this] have "set ?swh \<subseteq> {newline}"
      by (simp add: subsection_pieces_join re_split_join split: if_splits)
    moreover from True have "CHR ''#'' \<in> set sec" by (auto simp: prefix_def)
    ultimately show ?thesis by (auto simp: newline_def)
  next
    case False
    with "3.prems" have "sec = []" "\<forall>p\<in>set (pieces tiktoken model max_tokens (nxt # rest)). p = []"
      by simp_all
    with "3.IH"(2) [OF False] show ?thesis by simp
  qed
qed

lemma pieces_all_empty_text:
  assumes "\<forall>p\<in>set (pieces tiktoken model max_tokens (re_split ''##'' [] t)). p = []"
  shows "t = []"
  using re_split_all_empty [OF pieces_all_empty [OF assms]] by simp

lemma chunk_blocks:
  "\<exists>blocks. [] \<notin> set blocks \<and>
     drops_empties (pieces tiktoken model max_tokens (re_split ''##'' [] t)) (concat blocks) \<and>
     chunk_discovery_content tiktoken t max_tokens model = map join_chunks blocks"
proof -
  let ?init = "\<lparr>chunks = [], current_chunk = [], current_tokens = 0\<rparr>"
  let ?ps = "pieces tiktoken model max_tokens (re_split ''##'' [] t)"
  let ?st = "add_pieces tiktoken model max_tokens ?ps ?init"
  let ?cs = "if current_chunk ?st \<noteq> [] then chunks ?st @ [current_chunk ?st] else chunks ?st"
  have res: "chunk_discovery_content tiktoken t max_tokens model =
      (if ?cs \<noteq> [] then ?cs else [t])"
    by (simp add: chunk_discovery_content_def chunk_loop_pieces Let_def)
  from add_pieces_blocks [of "[]" "[]" "[]" ?init ?ps tiktoken model max_tokens]
  obtain blocks cur where b:
    "drops_empties ?ps (concat blocks @ cur)" "chunks ?st = map join_chunks blocks"
    "[] \<notin> set blocks" "current_chunk ?st = join_chunks cur" "cur = [] \<or> hd cur \<noteq> []"
    by auto
  from b(4,5) have cur: "current_chunk ?st = [] \<longleftrightarrow> cur = []" by (simp add: join_chunks_empty)
  show ?thesis
  proof (cases "cur = []")
    case False
    with cur b have "?cs = map join_chunks (blocks @ [cur])" "[] \<notin> set (blocks @ [cur])"
      "drops_empties ?ps (concat (blocks @ [cur]))"
      by simp_all
    moreover from this(1) have "?cs \<noteq> []" by simp
    ultimately show ?thesis unfolding res by metis
  next
    case True
    with cur b have cs: "?cs = map join_chunks blocks" "drops_empties ?ps (concat blocks)"
      by simp_all
    show ?thesis
    proof (cases "blocks = []")
      case False
      with cs have "?cs \<noteq> []" by simp
      with cs b(3) show ?thesis unfolding res by metis
    next
      case True
      with cs have empty: "?cs = []" "\<forall>p\<in>set ?ps. p = []"
        by (simp_all add: drops_empties_Nil)
      from pieces_all_empty_text [OF empty(2)] have t: "t = []" .
      have "?ps \<noteq> []" by (simp add: pieces_Nil re_split_not_Nil)
      from drops_empties_single [OF this empty(2)]
      have "drops_empties ?ps (concat [[[]]])" by simp
      moreover have "chunk_discovery_content tiktoken t max_tokens model = map join_chunks [[[]]]"
        unfolding res using empty(1) t by simp
      moreover have "[] \<notin> set [[[]::string]]" by simp
      ultimately show ?thesis by blast
    qed
  qed
qed

text \<open>
  C8, as amended. For every text, budget, tokenizer and model name,
  \<open>chunk_discovery_content\<close> returns a non-empty list. The text is cut at newlines only,
  those around the headings that the split patterns match: the pieces joined with single
  newlines are the text itself. Each chunk is a run of consecutive pieces joined with a
  double newline, the runs follow each other in the order of the pieces, and only empty
  pieces are left out. So the chunks joined with a double newline are the pieces, in order,
  joined with a double newline: the text with a newline doubled at the cuts, inside a chunk
  as well as between chunks, and nothing else added, cut, dropped or moved; in particular
  the non-empty lines are those of the text, in the same order.
\<close>

theorem chunks_rejoin_pieces:
  "chunk_discovery_content tiktoken t max_tokens model \<noteq> [] \<and>
   join_nl (pieces tiktoken model max_tokens (re_split ''##'' [] t)) = t \<and>
   (\<exists>blocks. [] \<notin> set blocks \<and>
      drops_empties (pieces tiktoken model max_tokens (re_split ''##'' [] t)) (concat blocks) \<and>
      chunk_discovery_content tiktoken t max_tokens model = map join_chunks blocks \<and>
      join_chunks (chunk_discovery_content tiktoken t max_tokens model) =
        join_chunks (concat blocks)) \<and>
   nonempty_lines (join_chunks (chunk_discovery_content tiktoken t max_tokens model)) =
     nonempty_lines t"
proof -
  from chunk_blocks [of tiktoken model max_tokens t]
  obtain blocks where b: "[] \<notin> set blocks"
    "drops_empties (pieces tiktoken model max_tokens (re_split ''##'' [] t)) (concat blocks)"
    "chunk_discovery_content tiktoken t max_tokens model = map join_chunks blocks"
    by blast
  from b(1,3) have "join_chunks (chunk_discovery_content tiktoken t max_tokens model) =
      join_chunks (concat blocks)"
    by (simp add: join_chunks_concat)
  with b have "\<exists>blocks. [] \<notin> set blocks \<and>
      drops_empties (pieces tiktoken model max_tokens (re_split ''##'' [] t)) (concat blocks) \<and>
      chunk_discovery_content tiktoken t max_tokens model = map join_chunks blocks \<and>
      join_chunks (chunk_discovery_content tiktoken t max_tokens model) =
        join_chunks (concat blocks)"
    by blast
  moreover have "join_nl (pieces tiktoken model max_tokens (re_split ''##'' [] t)) = t"
    by (simp add: pieces_join re_split_join)
  ultimately show ?thesis
    using chunk_not_Nil [of tiktoken t max_tokens model]
      chunk_lines_preserved [of tiktoken t max_tokens model]
    by simp
qed

text \<open>
  C8 as stated fails: the whitespace changes inside a chunk too. A text with one heading,
  within the budget, comes back as a single chunk that differs from the text by a blank
  line in its middle, where no chunk boundary is.
\<close>

theorem chunks_alter_inner_whitespace_counterexample:
  "chunk_discovery_content None ''intro\<newline>## Scope\<newline>text'' 1000 ''gpt-4'' =
     [''intro\<newline>\<newline>## Scope\<newline>text''] \<and>
   join_chunks [''intro\<newline>\<newline>## Scope\<newline>text''] \<noteq> ''intro\<newline>## Scope\<newline>text'' \<and>
   strip (join_chunks [''intro\<newline>\<newline>## Scope\<newline>text'']) \<noteq>
     strip ''intro\<newline>## Scope\<newline>text''"
  by (simp add: chunk_discovery_content_def match_heading_def newline_def is_space_def
        add_piece_def estimate_tokens_None strip_def)

lemma join_nl_length_Cons:
  "length (join_nl (x # xs)) \<ge> length x + length (join_nl xs)"
  by (cases xs) simp_all

lemma units_Nil: "units secs = [] \<longleftrightarrow> secs = []"
  by (induction secs rule: units.induct) simp_all

lemma units_join: "join_nl (units secs) = join_nl secs"
proof (induction secs rule: units.induct)
  case 1
  then show ?case by simp
next
  case (2 sec)
  then show ?case by simp
next
  case (3 sec nxt rest)
  show ?case
  proof (cases "prefix ''##'' sec")
    case True
    show ?thesis
    proof (cases rest)
      case Nil
      with True show ?thesis by simp
    next
      case (Cons r rs)
      then have "units rest \<noteq> []" by (simp add: units_Nil)
      with "3.IH"(1) [OF True] True Cons show ?thesis by (simp add: join_nl_Cons)
    qed
  next
    case False
    have "units (nxt # rest) \<noteq> []" by (simp add: units_Nil)
    with "3.IH"(2) [OF False] False show ?thesis by (simp add: join_nl_Cons)
  qed
qed

lemma pieces_within_units:
  "int (length (join_nl secs)) \<le> 4 * max_tokens + 3 \<Longrightarrow>
   pieces None model max_tokens secs = units secs"
proof (induction secs rule: units.induct)
  case 1
  then show ?case by simp
next
  case (2 sec)
  then show ?case by simp
next
  case (3 sec nxt rest)
  have len: "int (length (join_nl (sec # nxt # rest))) \<ge>
      int (length sec) + 1 + int (length nxt) + int (length (join_nl rest))"
    using join_nl_length_Cons [of nxt rest] by simp
  show ?case
  proof (cases "prefix ''##'' sec")
    case True
    have "4 * estimate_tokens None (sec @ [newline] @ nxt) model \<le>
        int (length sec) + 1 + int (length nxt)"
      by (simp add: estimate_tokens_None)
    with len "3.prems" have under: "\<not> estimate_tokens None (sec @ [newline] @ nxt) model > max_tokens"
      by linarith
    from len "3.prems" have "int (length (join_nl rest)) \<le> 4 * max_tokens + 3" by linarith
    from "3.IH"(1) [OF True this] True under show ?thesis by (simp add: Let_def)
  next
    case False
    have "int (length (join_nl (sec # nxt # rest))) =
        int (length sec) + 1 + int (length (join_nl (nxt # rest)))"
      by simp
    with "3.prems" have "int (length (join_nl (nxt # rest))) \<le> 4 * max_tokens + 3" by linarith
    from "3.IH"(2) [OF False this] False show ?thesis by simp
  qed
qed

lemma add_pieces_within:
  "chunks st = [] \<Longrightarrow> 0 \<le> current_tokens st \<Longrightarrow>
   4 * current_tokens st + int (length (join_nl ps)) \<le> 4 * max_tokens + 3 \<Longrightarrow>
   chunks (add_pieces None model max_tokens ps st) = [] \<and>
   current_chunk (add_pieces None model max_tokens ps st) =
     (if current_chunk st = [] then join_chunks (dropWhile (\<lambda>p. p = []) ps)
      else join_chunks (current_chunk st # ps))"
proof (induction ps arbitrary: st)
  case Nil
  then show ?case by simp
next
  case (Cons p ps)
  let ?c = "estimate_tokens None p model"
  let ?st = "add_piece max_tokens p ?c st"
  have c: "4 * ?c \<le> int (length p)" "0 \<le> ?c"
    by (simp_all add: estimate_tokens_None)
  have len: "int (length (join_nl (p # ps))) \<ge> int (length p) + int (length (join_nl ps))"
    using join_nl_length_Cons [of p ps] by simp
  with c Cons.prems have fit: "\<not> current_tokens st + ?c > max_tokens" by linarith
  then have st: "chunks ?st = []" "current_tokens ?st = current_tokens st + ?c"
    "current_chunk ?st =
       (if current_chunk st \<noteq> [] then current_chunk st @ [newline, newline] @ p else p)"
    using Cons.prems(1) by (simp_all add: add_piece_def)
  have p2: "0 \<le> current_tokens ?st" using st c Cons.prems(2) by simp
  have p3: "4 * current_tokens ?st + int (length (join_nl ps)) \<le> 4 * max_tokens + 3"
    using st c len Cons.prems(3) by linarith
  from Cons.IH [OF st(1) p2 p3]
  have ih: "chunks (add_pieces None model max_tokens ps ?st) = []"
    "current_chunk (add_pieces None model max_tokens ps ?st) =
       (if current_chunk ?st = [] then join_chunks (dropWhile (\<lambda>p. p = []) ps)
        else join_chunks (current_chunk ?st # ps))"
    by simp_all
  show ?case
  proof (cases "current_chunk st = []")
    case True
    with st(3) ih show ?thesis by simp
  next
    case False
    with st(3) ih show ?thesis by (simp add: join_chunks_Cons)
  qed
qed

lemma chunk_no_heading:
  "\<not> heading_occurs ''##'' t \<Longrightarrow> chunk_discovery_content tiktoken t max_tokens model = [t]"
  by (simp add: chunk_discovery_content_def re_split_no_match add_piece_def Let_def)

lemma chunk_within_budget_units:
  assumes "estimate_tokens None t model \<le> max_tokens"
  shows "chunk_discovery_content None t max_tokens model =
           [join_chunks (dropWhile (\<lambda>p. p = []) (units (re_split ''##'' [] t)))]"
proof -
  let ?init = "\<lparr>chunks = [], current_chunk = [], current_tokens = 0\<rparr>"
  let ?ps = "pieces None model max_tokens (re_split ''##'' [] t)"
  let ?st = "add_pieces None model max_tokens ?ps ?init"
  from assms have len: "int (length t) \<le> 4 * max_tokens + 3"
    by (simp add: estimate_tokens_None)
  then have ps: "?ps = units (re_split ''##'' [] t)"
    by (intro pieces_within_units) (simp add: re_split_join)
  from len have "4 * current_tokens ?init + int (length (join_nl ?ps)) \<le> 4 * max_tokens + 3"
    by (simp add: pieces_join re_split_join)
  from add_pieces_within [OF _ _ this]
  have st: "chunks ?st = []" "current_chunk ?st = join_chunks (dropWhile (\<lambda>p. p = []) ?ps)"
    by simp_all
  have res: "chunk_discovery_content None t max_tokens model =
      (if current_chunk ?st \<noteq> [] then [current_chunk ?st] else [t])"
    using st(1) by (simp add: chunk_discovery_content_def chunk_loop_pieces Let_def)
  show ?thesis
  proof (cases "current_chunk ?st = []")
    case False
    with res st(2) ps show ?thesis by simp
  next
    case True
    have "dropWhile (\<lambda>p. p = []) ?ps = []"
    proof (rule ccontr)
      assume ne: "dropWhile (\<lambda>p. p = []) ?ps \<noteq> []"
      then have "hd (dropWhile (\<lambda>p. p = []) ?ps) \<noteq> []" using hd_dropWhile by blast
      with ne join_chunks_empty [of "dropWhile (\<lambda>p. p = []) ?ps"] True st(2)
      show False by simp
    qed
    then have "\<forall>p\<in>set ?ps. p = []" by (simp add: dropWhile_eq_Nil_conv)
    from pieces_all_empty_text [OF this] have "t = []" .
    with res True st(2) ps show ?thesis by simp
  qed
qed

text \<open>
  C7, as amended. For every text and budget such that the heuristic estimate of the text
  (no exact tokenizer) is within the budget, \<open>chunk_discovery_content\<close> returns a
  one-element list: there is no split. The chunk is made of the pieces that \<open>re.split\<close>
  yields on the pattern \<open>\n(##\s+.+?)\n\<close>: a piece that starts with \<open>##\<close> is joined
  to the piece after it with a newline, and the units so made are joined with a double
  newline, the empty ones at the start left out. Joined with single newlines, the units are
  the text itself. The chunk is the text itself when the pattern does not occur in it.
\<close>

theorem chunk_within_budget:
  assumes "estimate_tokens None t model \<le> max_tokens"
  shows "chunk_discovery_content None t max_tokens model =
           [join_chunks (dropWhile (\<lambda>p. p = []) (units (re_split ''##'' [] t)))] \<and>
         join_nl (units (re_split ''##'' [] t)) = t \<and>
         (\<not> heading_occurs ''##'' t \<longrightarrow> chunk_discovery_content None t max_tokens model = [t])"
  using chunk_within_budget_units [OF assms] chunk_no_heading [of t None max_tokens model]
  by (simp add: units_join re_split_join)

theorem chunk_within_budget_witness:
  "estimate_tokens None ''## A\<newline>aaaa\<newline>## B\<newline>bbbb'' ''gpt-4'' \<le> 100 \<and>
   units (re_split ''##'' [] ''## A\<newline>aaaa\<newline>## B\<newline>bbbb'') =
     [''## A\<newline>aaaa\<newline>## B'', ''bbbb''] \<and>
   chunk_discovery_content None ''## A\<newline>aaaa\<newline>## B\<newline>bbbb'' 100 ''gpt-4'' =
     [''## A\<newline>aaaa\<newline>## B\<newline>\<newline>bbbb''] \<and>
   estimate_tokens None ''Small content'' ''gpt-4'' \<le> 1000 \<and>
   \<not> heading_occurs ''##'' ''Small content'' \<and>
   chunk_discovery_content None ''Small content'' 1000 ''gpt-4'' = [''Small content'']"
proof -
  have h1: "estimate_tokens None ''## A\<newline>aaaa\<newline>## B\<newline>bbbb'' ''gpt-4'' \<le> 100"
    by (simp add: estimate_tokens_None)
  have h2: "estimate_tokens None ''Small content'' ''gpt-4'' \<le> 1000"
    by (simp add: estimate_tokens_None)
  have h3: "\<not> heading_occurs ''##'' ''Small content''"
    by (simp add: match_heading_def newline_def)
  have u: "units (re_split ''##'' [] ''## A\<newline>aaaa\<newline>## B\<newline>bbbb'') =
     [''## A\<newline>aaaa\<newline>## B'', ''bbbb'']"
    by (simp add: match_heading_def newline_def is_space_def)
  from chunk_within_budget [OF h1]
  have "chunk_discovery_content None ''## A\<newline>aaaa\<newline>## B\<newline>bbbb'' 100 ''gpt-4'' =
     [''## A\<newline>aaaa\<newline>## B\<newline>\<newline>bbbb'']"
    unfolding u by (simp add: newline_def)
  moreover from chunk_within_budget [OF h2, THEN conjunct2, THEN conjunct2] h3
  have "chunk_discovery_content None ''Small content'' 1000 ''gpt-4'' = [''Small content'']"
    by (rule mp)
  ultimately show ?thesis using h1 h2 h3 u by simp
qed

text \<open>
  C7 as stated fails. On the heuristic path a text within the budget that holds a heading
  comes back as one chunk with a blank line before the heading, which the text does not
  have. With an exact tokenizer the estimates of the sections may add up to more than the
  estimate of the text (here a tokenizer that adds a start and an end token), and a text
  within the budget is split.
\<close>

theorem chunk_within_budget_not_verbatim_counterexample:
  "estimate_tokens None ''a\<newline>## H\<newline>b'' ''gpt-4'' \<le> 100 \<and>
   chunk_discovery_content None ''a\<newline>## H\<newline>b'' 100 ''gpt-4'' =
     [''a\<newline>\<newline>## H\<newline>b''] \<and>
   chunk_discovery_content None ''a\<newline>## H\<newline>b'' 100 ''gpt-4'' \<noteq>
     [''a\<newline>## H\<newline>b''] \<and>
   estimate_tokens (Some (\<lambda>e t. Some (0 # map of_char t @ [1]))) ''a\<newline>## H\<newline>b'' ''gpt-4''
     \<le> 10 \<and>
   chunk_discovery_content (Some (\<lambda>e t. Some (0 # map of_char t @ [1]))) ''a\<newline>## H\<newline>b'' 10
     ''gpt-4'' = [''a'', ''## H\<newline>b'']"
  by (simp add: chunk_discovery_content_def match_heading_def newline_def is_space_def
        add_piece_def estimate_tokens_None estimate_tokens_Some)

lemma two_sections_split:
  "re_split ''##'' [] ''## A\<newline>aaaa\<newline>## B\<newline>bbbb'' =
     [''## A\<newline>aaaa'', ''## B'', ''bbbb'']"
  by (simp add: match_heading_def newline_def is_space_def)

lemma first_unit_split:
  "re_split ''###'' [] ''## A\<newline>aaaa\<newline>## B'' = [''## A\<newline>aaaa\<newline>## B'']"
  by (simp add: match_heading_def newline_def is_space_def)

lemma two_sections_never_separated:
  "chunk_discovery_content tiktoken ''## A\<newline>aaaa\<newline>## B\<newline>bbbb'' max_tokens model =
     [''## A\<newline>aaaa\<newline>## B'', ''bbbb''] \<or>
   chunk_discovery_content tiktoken ''## A\<newline>aaaa\<newline>## B\<newline>bbbb'' max_tokens model =
     [''## A\<newline>aaaa\<newline>## B\<newline>\<newline>bbbb'']"
  unfolding chunk_discovery_content_def two_sections_split
  by (simp add: first_unit_split add_piece_def Let_def newline_def del: re_split.simps)

text \<open>
  C9. A document of two sections that starts with its first heading: each section is
  estimated at 2 tokens, the document at 4, the budget is 3. The pattern needs a newline
  before a heading, so the first heading is not split off; the loop takes the whole first
  section for a header and joins the second heading to it. The two chunks are the first
  section with the second heading, and the body of the second section alone. Whatever the
  tokenizer and the budget, the second heading stays with the first section.
\<close>

theorem two_sections_heading_misplaced:
  "estimate_tokens None ''## A\<newline>aaaa'' ''gpt-4'' = 2 \<and>
   estimate_tokens None ''## B\<newline>bbbb'' ''gpt-4'' = 2 \<and>
   estimate_tokens None ''## A\<newline>aaaa\<newline>## B\<newline>bbbb'' ''gpt-4'' = 4 \<and>
   chunk_discovery_content None ''## A\<newline>aaaa\<newline>## B\<newline>bbbb'' 3 ''gpt-4'' =
     [''## A\<newline>aaaa\<newline>## B'', ''bbbb'']"
  by (simp add: chunk_discovery_content_def match_heading_def newline_def is_space_def
        add_piece_def estimate_tokens_None)

section \<open>Properties of the Resilient Call Orchestrator\<close>

lemma validate_response_error:
  "validate_response response = Some e \<Longrightarrow> \<exists>m. e = ValueError m"
  by (auto simp: validate_response_def split: option.splits list.splits if_splits)

lemma attempt_step_final:
  "final_of outcome = Some e \<Longrightarrow>
   attempt_step sleep outcome model_name models attempt max_retries timeout ib = Raise e"
proof (cases outcome)
  case (Returns response)
  assume "final_of outcome = Some e"
  with Returns show ?thesis by (simp add: attempt_step_def)
next
  case (Raises x)
  assume "final_of outcome = Some e"
  with Raises show ?thesis
    by (cases x) (auto simp: attempt_step_def on_exception_def split: if_splits)
qed

lemma retry_loop_done:
  "\<not> attempt < max_retries + 1 \<Longrightarrow>
   retry_loop sleep cl prompt timeout max_retries ib models model_name attempt calls =
     (None, [], calls)"
  by (simp add: retry_loop.simps)

lemma retry_loop_Continue:
  assumes "attempt < max_retries + 1"
    and "attempt_step sleep (cl calls model_name prompt timeout) model_name models attempt
           max_retries timeout ib = Continue d"
    and "retry_loop sleep cl prompt timeout max_retries ib models model_name (attempt + 1)
           (Suc calls) = (r, evs, calls')"
  shows "retry_loop sleep cl prompt timeout max_retries ib models model_name attempt calls =
           (r, Attempt model_name attempt (cl calls model_name prompt timeout) # Sleep d # evs,
            calls')"
  using assms
  by (simp add: retry_loop.simps [of sleep cl prompt timeout max_retries ib models model_name
                  attempt calls] Let_def)

lemma retry_loop_Next:
  assumes "attempt < max_retries + 1"
    and "attempt_step sleep (cl calls model_name prompt timeout) model_name models attempt
           max_retries timeout ib = Next"
    and "retry_loop sleep cl prompt timeout max_retries ib models model_name (attempt + 1)
           (Suc calls) = (r, evs, calls')"
  shows "retry_loop sleep cl prompt timeout max_retries ib models model_name attempt calls =
           (r, Attempt model_name attempt (cl calls model_name prompt timeout) # evs, calls')"
  using assms
  by (simp add: retry_loop.simps [of sleep cl prompt timeout max_retries ib models model_name
                  attempt calls] Let_def)

lemma retry_loop_Raise:
  assumes "attempt < max_retries + 1"
    and "attempt_step sleep (cl calls model_name prompt timeout) model_name models attempt
           max_retries timeout ib = Raise e"
  shows "retry_loop sleep cl prompt timeout max_retries ib models model_name attempt calls =
           (Some e, [Attempt model_name attempt (cl calls model_name prompt timeout)], Suc calls)"
  using assms
  by (simp add: retry_loop.simps [of sleep cl prompt timeout max_retries ib models model_name
                  attempt calls] Let_def)

lemma retry_loop_Break:
  assumes "attempt < max_retries + 1"
    and "attempt_step sleep (cl calls model_name prompt timeout) model_name models attempt
           max_retries timeout ib = Break"
  shows "retry_loop sleep cl prompt timeout max_retries ib models model_name attempt calls =
           (None, [Attempt model_name attempt (cl calls model_name prompt timeout)], Suc calls)"
  using assms
  by (simp add: retry_loop.simps [of sleep cl prompt timeout max_retries ib models model_name
                  attempt calls] Let_def)

lemma retry_loop_final:
  "retry_loop sleep cl prompt timeout max_retries ib models model_name attempt calls =
     (r, evs, calls')
   \<Longrightarrow> evs = pre @ Attempt m a outcome # post \<Longrightarrow> final_of outcome = Some e
   \<Longrightarrow> post = [] \<and> r = Some e"
proof (induction sleep cl prompt timeout max_retries ib models model_name attempt calls
       arbitrary: r evs calls' pre
       rule: retry_loop.induct)
  case (1 sleep cl prompt timeout max_retries ib models model_name attempt calls)
  let ?out = "cl calls model_name prompt timeout"
  let ?step = "attempt_step sleep ?out model_name models attempt max_retries timeout ib"
  have lt: "attempt < max_retries + 1"
  proof (rule ccontr)
    assume "\<not> attempt < max_retries + 1"
    from retry_loop_done [OF this, of sleep cl prompt timeout ib models model_name calls]
      "1.prems"(1,2)
    show False by simp
  qed
  obtain r' evs' c' where rec:
    "retry_loop sleep cl prompt timeout max_retries ib models model_name (attempt + 1) (Suc calls)
       = (r', evs', c')"
    using prod_cases3 by blast
  have nofinal: "?step \<noteq> Raise e' \<Longrightarrow> final_of ?out \<noteq> Some e'" for e'
    using attempt_step_final [of ?out e' sleep model_name models attempt max_retries timeout ib]
    by auto
  show ?case
  proof (cases ?step)
    case (Continue d)
    from retry_loop_Continue [where cl = cl and calls = calls, OF lt Continue rec] "1.prems"(1)
    have eq: "r = r'" "evs = Attempt model_name attempt ?out # Sleep d # evs'" by simp_all
    from Continue nofinal [of e] have nf: "final_of ?out \<noteq> Some e" by simp
    from eq(2) "1.prems"(2)
    have "pre @ Attempt m a outcome # post = Attempt model_name attempt ?out # Sleep d # evs'"
      by simp
    then obtain pre' where "evs' = pre' @ Attempt m a outcome # post"
      using nf "1.prems"(3)
      by (cases pre; cases "tl pre") auto
    from "1.IH"(1) [OF lt refl Continue rec this "1.prems"(3)] eq show ?thesis by simp
  next
    case Next
    from retry_loop_Next [where cl = cl and calls = calls, OF lt Next rec] "1.prems"(1)
    have eq: "r = r'" "evs = Attempt model_name attempt ?out # evs'" by simp_all
    from Next nofinal [of e] have nf: "final_of ?out \<noteq> Some e" by simp
    from eq(2) "1.prems"(2)
    have "pre @ Attempt m a outcome # post = Attempt model_name attempt ?out # evs'"
      by simp
    then obtain pre' where "evs' = pre' @ Attempt m a outcome # post"
      using nf "1.prems"(3)
      by (cases pre) auto
    from "1.IH"(2) [OF lt refl Next rec this "1.prems"(3)] eq show ?thesis by simp
  next
    case (Raise x)
    from retry_loop_Raise [where cl = cl and calls = calls, OF lt Raise] "1.prems"(1)
    have eq: "r = Some x" "evs = [Attempt model_name attempt ?out]" by simp_all
    with "1.prems"(2) have "pre = []" "post = []" "outcome = ?out"
      by (auto simp: append_eq_Cons_conv Cons_eq_append_conv)
    with attempt_step_final [of ?out e sleep model_name models attempt max_retries timeout ib]
      "1.prems"(3) Raise eq
    show ?thesis by simp
  next
    case Break
    from retry_loop_Break [where cl = cl and calls = calls, OF lt Break] "1.prems"(1)
    have eq: "r = None" "evs = [Attempt model_name attempt ?out]" by simp_all
    with "1.prems"(2) have "pre = []" "post = []" "outcome = ?out"
      by (auto simp: append_eq_Cons_conv Cons_eq_append_conv)
    with attempt_step_final [of ?out e sleep model_name models attempt max_retries timeout ib]
      "1.prems"(3) Break
    show ?thesis by simp
  qed
qed

lemma append_split_occurrence:
  "xs @ ys = pre @ x # post \<Longrightarrow>
   (\<exists>post'. xs = pre @ x # post') \<or> (\<exists>pre'. ys = pre' @ x # post)"
proof (induction xs arbitrary: pre)
  case Nil
  then show ?case by simp
next
  case (Cons y xs)
  show ?case
  proof (cases pre)
    case Nil
    with Cons.prems show ?thesis by simp
  next
    case (Cons p pre')
    with Cons.prems have "xs @ ys = pre' @ x # post" "y = p" by simp_all
    with Cons.IH [of pre'] Cons show ?thesis by auto
  qed
qed

lemma model_loop_Cons:
  "retry_loop sleep cl prompt timeout max_retries ib models model_name 0 calls = (r1, evs1, c1) \<Longrightarrow>
   model_loop sleep cl prompt timeout max_retries ib models (model_name # rest) calls =
     (case r1 of
        Some e \<Rightarrow> (e, evs1)
      | None \<Rightarrow>
          (fst (model_loop sleep cl prompt timeout max_retries ib models rest c1),
           evs1 @ snd (model_loop sleep cl prompt timeout max_retries ib models rest c1)))"
  by (simp split: option.splits prod.splits)

lemma model_loop_final:
  "model_loop sleep cl prompt timeout max_retries ib models ms calls = (r, evs)
   \<Longrightarrow> evs = pre @ Attempt m a outcome # post \<Longrightarrow> final_of outcome = Some e
   \<Longrightarrow> post = [] \<and> r = e"
proof (induction ms arbitrary: calls r evs pre)
  case Nil
  then show ?case by simp
next
  case (Cons model_name rest)
  obtain r1 evs1 c1 where loop:
    "retry_loop sleep cl prompt timeout max_retries ib models model_name 0 calls = (r1, evs1, c1)"
    using prod_cases3 by blast
  note step = model_loop_Cons [OF loop, of rest]
  show ?case
  proof (cases r1)
    case (Some e1)
    from Cons.prems(1) have "r = e1" "evs = evs1"
      unfolding step Some by simp_all
    with Cons.prems(2) have "evs1 = pre @ Attempt m a outcome # post" by simp
    from retry_loop_final [OF loop this Cons.prems(3)] Some \<open>r = e1\<close>
    show ?thesis by simp
  next
    case None
    obtain r2 evs2 where rest:
      "model_loop sleep cl prompt timeout max_retries ib models rest c1 = (r2, evs2)"
      by fastforce
    from Cons.prems(1) have eq: "r = r2" "evs = evs1 @ evs2"
      unfolding step None rest by simp_all
    with Cons.prems(2) have "evs1 @ evs2 = pre @ Attempt m a outcome # post" by simp
    from append_split_occurrence [OF this]
    show ?thesis
    proof
      assume "\<exists>post'. evs1 = pre @ Attempt m a outcome # post'"
      then obtain post' where "evs1 = pre @ Attempt m a outcome # post'" by blast
      from retry_loop_final [OF loop this Cons.prems(3)] None show ?thesis by simp
    next
      assume "\<exists>pre'. evs2 = pre' @ Attempt m a outcome # post"
      then obtain pre' where "evs2 = pre' @ Attempt m a outcome # post" by blast
      from Cons.IH [OF rest this Cons.prems(3)] eq show ?thesis by simp
    qed
  qed
qed

lemma call_openai_api_model_loop:
  assumes "model_loop sleep cl prompt timeout max_retries ib (candidate_models model)
             (candidate_models model) 0 = (e0, evs0)"
  shows "call_openai_api sleep cl prompt model timeout max_retries ib = (Inl (reraise e0), evs0)"
  using assms by (simp add: call_openai_api_def)

lemma call_openai_api_final:
  assumes run: "call_openai_api sleep cl prompt model timeout max_retries ib = (r, evs)"
    and occ: "evs = pre @ Attempt m a outcome # post"
    and fin: "final_of outcome = Some e"
  shows "post = [] \<and> r = Inl (reraise e)"
proof -
  obtain e0 evs0 where ml:
    "model_loop sleep cl prompt timeout max_retries ib (candidate_models model)
       (candidate_models model) 0 = (e0, evs0)"
    by fastforce
  from run have "r = Inl (reraise e0)" "evs = evs0"
    unfolding call_openai_api_model_loop [OF ml] by simp_all
  moreover from occ \<open>evs = evs0\<close> have "evs0 = pre @ Attempt m a outcome # post" by simp
  from model_loop_final [OF ml this fin] have "post = []" "e0 = e" by simp_all
  ultimately show ?thesis by simp
qed

lemma candidate_models_Cons: "\<exists>ms. candidate_models model = model # ms"
  by (simp add: candidate_models_def)

text \<open>
  C1. The test \<open>test_successful_api_call\<close> of the repository: the client answers every call
  with a response whose one choice has the text "Generated guide content", the model is
  "gpt-4" and the other arguments are the defaults. No attempt returns the text: each of
  the four attempts on "gpt-4" and then on "gpt-3.5-turbo" passes the checks and reaches
  the end of the loop body, and the call raises. No run of \<open>call_openai_api\<close> returns a
  text, because the only \<open>return\<close> stands under a \<open>raise\<close>.
\<close>

theorem valid_response_is_not_returned:
  "call_openai_api sleep
     (\<lambda>n m p t. Returns (Some (Response (Some [Choice (Some ''Generated guide content'')]))))
     ''Test prompt'' ''gpt-4'' 120 3 1 =
   (Inl (Exception ''OpenAI API call failed: All OpenAI models failed after retries''),
    map (\<lambda>(m, a). Attempt m a
           (Returns (Some (Response (Some [Choice (Some ''Generated guide content'')])))))
      [(''gpt-4'', 0), (''gpt-4'', 1), (''gpt-4'', 2), (''gpt-4'', 3),
       (''gpt-3.5-turbo'', 0), (''gpt-3.5-turbo'', 1), (''gpt-3.5-turbo'', 2),
       (''gpt-3.5-turbo'', 3)]) \<and>
   fst (call_openai_api sleep cl prompt model timeout max_retries initial_backoff) \<noteq> Inr g"
proof -
  have "attempt_step sleep
          (Returns (Some (Response (Some [Choice (Some ''Generated guide content'')]))))
          model_name models attempt 3 120 1 = Next" for model_name models attempt
    by (simp add: attempt_step_def validate_response_def strip_def is_space_def)
  then have "call_openai_api sleep
     (\<lambda>n m p t. Returns (Some (Response (Some [Choice (Some ''Generated guide content'')]))))
     ''Test prompt'' ''gpt-4'' 120 3 1 =
   (Inl (Exception ''OpenAI API call failed: All OpenAI models failed after retries''),
    map (\<lambda>(m, a). Attempt m a
           (Returns (Some (Response (Some [Choice (Some ''Generated guide content'')])))))
      [(''gpt-4'', 0), (''gpt-4'', 1), (''gpt-4'', 2), (''gpt-4'', 3),
       (''gpt-3.5-turbo'', 0), (''gpt-3.5-turbo'', 1), (''gpt-3.5-turbo'', 2),
       (''gpt-3.5-turbo'', 3)])"
    by (simp add: call_openai_api_def candidate_models_def retry_loop.simps Let_def)
  moreover
  have "fst (call_openai_api sleep cl prompt model timeout max_retries initial_backoff) \<noteq> Inr g"
    by (simp add: call_openai_api_def Let_def split: prod.splits)
  ultimately show ?thesis by (rule conjI)
qed

text \<open>
  C2. For every \<open>max_retries\<close>, when an attempt fails with an \<open>APIError\<close> that the
  code classifies as an authentication error (its message, in lower case, contains
  "authentication" or "api key"), no event follows that attempt (no retry, no sleep, no
  other model) and the run raises the \<open>ValueError\<close> on the invalid API key. When the
  first call fails so (an attempt is made when \<open>max_retries\<close> is not negative), the
  run is exactly that one attempt.
\<close>

theorem authentication_is_terminal:
  "(call_openai_api sleep cl prompt model timeout max_retries initial_backoff = (r, evs) \<and>
    evs = pre @ Attempt m a (Raises (APIError msg)) # post \<and> is_authentication msg
    \<longrightarrow> post = [] \<and>
        r = Inl (ValueError
          ''Invalid OpenAI API key. Please check your OPENAI_API_KEY environment variable.'')) \<and>
   (0 \<le> max_retries \<and> cl 0 model prompt timeout = Raises (APIError msg) \<and> is_authentication msg
    \<longrightarrow> call_openai_api sleep cl prompt model timeout max_retries initial_backoff =
          (Inl (ValueError
             ''Invalid OpenAI API key. Please check your OPENAI_API_KEY environment variable.''),
           [Attempt model 0 (Raises (APIError msg))]))"
proof (rule conjI)
  show "call_openai_api sleep cl prompt model timeout max_retries initial_backoff = (r, evs) \<and>
    evs = pre @ Attempt m a (Raises (APIError msg)) # post \<and> is_authentication msg
    \<longrightarrow> post = [] \<and>
        r = Inl (ValueError
          ''Invalid OpenAI API key. Please check your OPENAI_API_KEY environment variable.'')"
  proof (rule impI)
    assume a: "call_openai_api sleep cl prompt model timeout max_retries initial_backoff = (r, evs) \<and>
      evs = pre @ Attempt m a (Raises (APIError msg)) # post \<and> is_authentication msg"
    then have fin: "final_of (Raises (APIError msg)) = Some (ValueError
          ''Invalid OpenAI API key. Please check your OPENAI_API_KEY environment variable.'')"
      by simp
    from a have run:
      "call_openai_api sleep cl prompt model timeout max_retries initial_backoff = (r, evs)"
      and occ: "evs = pre @ Attempt m a (Raises (APIError msg)) # post" by simp_all
    from call_openai_api_final [OF run occ fin]
    show "post = [] \<and> r = Inl (ValueError
          ''Invalid OpenAI API key. Please check your OPENAI_API_KEY environment variable.'')"
      by simp
  qed
next
  show "0 \<le> max_retries \<and> cl 0 model prompt timeout = Raises (APIError msg) \<and> is_authentication msg
    \<longrightarrow> call_openai_api sleep cl prompt model timeout max_retries initial_backoff =
          (Inl (ValueError
             ''Invalid OpenAI API key. Please check your OPENAI_API_KEY environment variable.''),
           [Attempt model 0 (Raises (APIError msg))])"
  proof (rule impI)
    assume a: "0 \<le> max_retries \<and> cl 0 model prompt timeout = Raises (APIError msg) \<and>
      is_authentication msg"
    then have step: "attempt_step sleep (cl 0 model prompt timeout) model (candidate_models model) 0
        max_retries timeout initial_backoff =
        Raise (ValueError
          ''Invalid OpenAI API key. Please check your OPENAI_API_KEY environment variable.'')"
      by (simp add: attempt_step_def on_exception_def)
    from a have "(0::int) < max_retries + 1" by simp
    from retry_loop_Raise [where cl = cl and calls = 0, OF this step]
    have loop: "retry_loop sleep cl prompt timeout max_retries initial_backoff
        (candidate_models model) model 0 0
      = (Some (ValueError
            ''Invalid OpenAI API key. Please check your OPENAI_API_KEY environment variable.''),
         [Attempt model 0 (cl 0 model prompt timeout)], Suc 0)" .
    obtain ms where ms: "candidate_models model = model # ms"
      using candidate_models_Cons by blast
    have "model_loop sleep cl prompt timeout max_retries initial_backoff (candidate_models model)
            (candidate_models model) 0 =
          (ValueError
            ''Invalid OpenAI API key. Please check your OPENAI_API_KEY environment variable.'',
           [Attempt model 0 (cl 0 model prompt timeout)])"
      using model_loop_Cons [OF loop, of ms] ms by simp
    from call_openai_api_model_loop [OF this] a
    show "call_openai_api sleep cl prompt model timeout max_retries initial_backoff =
            (Inl (ValueError
               ''Invalid OpenAI API key. Please check your OPENAI_API_KEY environment variable.''),
             [Attempt model 0 (Raises (APIError msg))])"
      by simp
  qed
qed

theorem authentication_is_terminal_witness:
  "0 \<le> (3::int) \<and> is_authentication ''Invalid API key'' \<and>
   call_openai_api (time_sleep 9223372036) (\<lambda>n m p t. Raises (APIError ''Invalid API key''))
     ''prompt'' ''gpt-4'' 120 3 1 =
     (Inl (ValueError
        ''Invalid OpenAI API key. Please check your OPENAI_API_KEY environment variable.''),
      [] @ Attempt ''gpt-4'' 0 (Raises (APIError ''Invalid API key'')) # [])"
proof -
  have auth: "is_authentication ''Invalid API key''" by code_simp
  from authentication_is_terminal
    [of "time_sleep 9223372036" "\<lambda>n m p t. Raises (APIError ''Invalid API key'')" "''prompt''"
        "''gpt-4''" 120 3 1
        "Inl (ValueError
          ''Invalid OpenAI API key. Please check your OPENAI_API_KEY environment variable.'')"
        "[Attempt ''gpt-4'' 0 (Raises (APIError ''Invalid API key''))]" "[]" "''gpt-4''" 0
        "''Invalid API key''" "[]"]
    auth
  show ?thesis by simp
qed



lemma sleep_and_continue_accepted:
  "attempt < 1024 \<Longrightarrow> sleep (ib * 2 ^ nat attempt) = None \<Longrightarrow>
   sleep_and_continue sleep ib attempt = Continue (ib * 2 ^ nat attempt)"
  by (simp add: sleep_and_continue_def backoff_time_def)

lemma sleep_and_continue_overflow:
  "1024 \<le> attempt \<Longrightarrow>
   sleep_and_continue sleep ib attempt = Raise (OverflowError ''int too large to convert to float'')"
  by (simp add: sleep_and_continue_def backoff_time_def)









lemma attempt_step_transient_retry:
  assumes "transient_failure outcome" and "attempt < max_retries" and "attempt < 1024"
    and "sleep (ib * 2 ^ nat attempt) = None"
  shows "attempt_step sleep outcome model_name models attempt max_retries timeout ib =
           Continue (ib * 2 ^ nat attempt)"
proof (cases outcome)
  case (Returns response)
  with assms(1) show ?thesis by simp
next
  case (Raises e)
  with assms show ?thesis
    by (cases e) (simp_all add: attempt_step_def on_exception_def sleep_and_continue_accepted)
qed

lemma attempt_step_transient_overflow:
  assumes "transient_failure outcome" and "attempt < max_retries" and "1024 \<le> attempt"
  shows "attempt_step sleep outcome model_name models attempt max_retries timeout ib =
           Raise (OverflowError ''int too large to convert to float'')"
proof (cases outcome)
  case (Returns response)
  with assms(1) show ?thesis by simp
next
  case (Raises e)
  with assms show ?thesis
    by (cases e) (simp_all add: attempt_step_def on_exception_def sleep_and_continue_overflow)
qed

lemma attempt_step_transient_break:
  assumes "transient_failure outcome" and "\<not> attempt < max_retries"
    and "''gpt-3.5-turbo'' \<in> set models"
  shows "attempt_step sleep outcome ''gpt-4'' models attempt max_retries timeout ib = Break"
proof (cases outcome)
  case (Returns response)
  with assms(1) show ?thesis by simp
next
  case (Raises e)
  with assms show ?thesis
    by (cases e) (simp_all add: attempt_step_def on_exception_def)
qed

lemma retry_loop_attempts:
  "retry_loop sleep cl prompt timeout max_retries ib models model_name attempt calls =
     (r, evs, calls')
   \<Longrightarrow> set (map fst (attempts_of evs)) \<subseteq> {model_name} \<and>
       (attempt < max_retries + 1 \<longrightarrow> (\<exists>rest. attempts_of evs = (model_name, attempt) # rest))"
proof (induction sleep cl prompt timeout max_retries ib models model_name attempt calls
       arbitrary: r evs calls' rule: retry_loop.induct)
  case (1 sleep cl prompt timeout max_retries ib models model_name attempt calls)
  let ?out = "cl calls model_name prompt timeout"
  let ?step = "attempt_step sleep ?out model_name models attempt max_retries timeout ib"
  show ?case
  proof (cases "attempt < max_retries + 1")
    case False
    from "1.prems" retry_loop_done [OF False, of sleep cl prompt timeout ib models model_name calls]
    have "evs = []" by simp
    with False show ?thesis by simp
  next
    case lt: True
    obtain r' evs' c' where rec:
      "retry_loop sleep cl prompt timeout max_retries ib models model_name (attempt + 1)
         (Suc calls) = (r', evs', c')"
      using prod_cases3 by blast
    show ?thesis
    proof (cases ?step)
      case (Continue d)
      from retry_loop_Continue [where cl = cl and calls = calls, OF lt Continue rec] "1.prems"
      have evs: "evs = Attempt model_name attempt ?out # Sleep d # evs'" by simp
      from "1.IH"(1) [OF lt refl Continue rec]
      have "set (map fst (attempts_of evs')) \<subseteq> {model_name}" by simp
      with evs show ?thesis by simp
    next
      case Next
      from retry_loop_Next [where cl = cl and calls = calls, OF lt Next rec] "1.prems"
      have evs: "evs = Attempt model_name attempt ?out # evs'" by simp
      from "1.IH"(2) [OF lt refl Next rec]
      have "set (map fst (attempts_of evs')) \<subseteq> {model_name}" by simp
      with evs show ?thesis by simp
    next
      case (Raise e)
      from retry_loop_Raise [where cl = cl and calls = calls, OF lt Raise] "1.prems"
      have "evs = [Attempt model_name attempt ?out]" by simp
      then show ?thesis by simp
    next
      case Break
      from retry_loop_Break [where cl = cl and calls = calls, OF lt Break] "1.prems"
      have "evs = [Attempt model_name attempt ?out]" by simp
      then show ?thesis by simp
    qed
  qed
qed






lemma attempts_of_append: "attempts_of (xs @ ys) = attempts_of xs @ attempts_of ys"
  by (induction xs rule: attempts_of.induct) simp_all

lemma retry_loop_premium:
  assumes fb: "''gpt-3.5-turbo'' \<in> set models" and mr: "max_retries \<le> 1024"
    and sl: "\<forall>a<nat max_retries. sleep (ib * 2 ^ a) = None"
  shows "n = nat (max_retries - attempt) \<Longrightarrow> 0 \<le> attempt \<Longrightarrow> attempt \<le> max_retries \<Longrightarrow>
    (\<forall>j. attempt \<le> j \<and> j \<le> max_retries \<longrightarrow>
       transient_failure (cl (calls + nat (j - attempt)) ''gpt-4'' prompt timeout)) \<Longrightarrow>
    \<exists>evs. retry_loop sleep cl prompt timeout max_retries ib models ''gpt-4'' attempt calls =
            (None, evs, calls + nat (max_retries + 1 - attempt)) \<and>
          attempts_of evs = map (\<lambda>k. (''gpt-4'', int k)) [nat attempt ..< nat (max_retries + 1)]"
proof (induction n arbitrary: attempt calls)
  case 0
  then have eq: "attempt = max_retries" by simp
  from "0.prems"(4) eq have tr: "transient_failure (cl calls ''gpt-4'' prompt timeout)"
    by (auto dest: spec [of _ max_retries])
  have st: "attempt_step sleep (cl calls ''gpt-4'' prompt timeout) ''gpt-4'' models attempt
              max_retries timeout ib = Break"
    using attempt_step_transient_break [OF tr _ fb] eq by simp
  have "retry_loop sleep cl prompt timeout max_retries ib models ''gpt-4'' attempt calls =
          (None, [Attempt ''gpt-4'' attempt (cl calls ''gpt-4'' prompt timeout)], Suc calls)"
    using retry_loop_Break [where cl = cl and calls = calls, OF _ st] eq by simp
  moreover have "[nat max_retries ..< nat (max_retries + 1)] = [nat max_retries]"
    using "0.prems"(2) eq by (simp add: nat_add_distrib upt_rec)
  ultimately show ?case using eq "0.prems"(2) by simp
next
  case (Suc n)
  then have lt: "attempt < max_retries" by simp
  from Suc.prems(4) lt have tr: "transient_failure (cl calls ''gpt-4'' prompt timeout)"
    by (auto dest: spec [of _ attempt])
  from lt mr have small: "attempt < 1024" by simp
  from lt Suc.prems(2) have "nat attempt < nat max_retries" by simp
  with sl have acc: "sleep (ib * 2 ^ nat attempt) = None" by blast
  have st: "attempt_step sleep (cl calls ''gpt-4'' prompt timeout) ''gpt-4'' models attempt
              max_retries timeout ib = Continue (ib * 2 ^ nat attempt)"
    using attempt_step_transient_retry [where sleep = sleep and ib = ib, OF tr lt small acc] .
  have hyp: "\<forall>j. attempt + 1 \<le> j \<and> j \<le> max_retries \<longrightarrow>
       transient_failure (cl (Suc calls + nat (j - (attempt + 1))) ''gpt-4'' prompt timeout)"
  proof (intro allI impI)
    fix j assume j: "attempt + 1 \<le> j \<and> j \<le> max_retries"
    then have eq: "Suc calls + nat (j - (attempt + 1)) = calls + nat (j - attempt)"
      using Suc.prems(2) by arith
    from j have "attempt \<le> j \<and> j \<le> max_retries" by simp
    with Suc.prems(4) have "transient_failure (cl (calls + nat (j - attempt)) ''gpt-4'' prompt timeout)"
      by blast
    then show
      "transient_failure (cl (Suc calls + nat (j - (attempt + 1))) ''gpt-4'' prompt timeout)"
      unfolding eq .
  qed
  from Suc.prems have n: "n = nat (max_retries - (attempt + 1))" by simp
  from Suc.IH [OF n _ _ hyp] Suc.prems(2) lt
  obtain evs where rec:
    "retry_loop sleep cl prompt timeout max_retries ib models ''gpt-4'' (attempt + 1) (Suc calls) =
       (None, evs, Suc calls + nat (max_retries + 1 - (attempt + 1)))"
    and att: "attempts_of evs =
       map (\<lambda>k. (''gpt-4'', int k)) [nat (attempt + 1) ..< nat (max_retries + 1)]"
    by auto
  have "retry_loop sleep cl prompt timeout max_retries ib models ''gpt-4'' attempt calls =
      (None, Attempt ''gpt-4'' attempt (cl calls ''gpt-4'' prompt timeout)
             # Sleep (ib * 2 ^ nat attempt) # evs,
       Suc calls + nat (max_retries + 1 - (attempt + 1)))"
    using retry_loop_Continue [where cl = cl and calls = calls, OF _ st rec] lt by simp
  moreover have "Suc calls + nat (max_retries + 1 - (attempt + 1)) =
      calls + nat (max_retries + 1 - attempt)"
    using lt by simp
  moreover have "[nat attempt ..< nat (max_retries + 1)] =
      nat attempt # [nat (attempt + 1) ..< nat (max_retries + 1)]"
    using lt Suc.prems(2) by (simp add: upt_rec [of "nat attempt"] nat_add_distrib)
  ultimately show ?case using att Suc.prems(2) by simp
qed

lemma retry_loop_overflow:
  assumes big: "1024 < max_retries"
    and sl: "\<forall>a<1024. sleep (ib * 2 ^ a) = None"
  shows "n = nat (1024 - attempt) \<Longrightarrow> 0 \<le> attempt \<Longrightarrow> attempt \<le> 1024 \<Longrightarrow>
    (\<forall>j. attempt \<le> j \<and> j \<le> 1024 \<longrightarrow>
       transient_failure (cl (calls + nat (j - attempt)) model_name prompt timeout)) \<Longrightarrow>
    \<exists>evs c. retry_loop sleep cl prompt timeout max_retries ib models model_name attempt calls =
            (Some (OverflowError ''int too large to convert to float''), evs, c)"
proof (induction n arbitrary: attempt calls)
  case 0
  then have eq: "attempt = 1024" by simp
  from "0.prems"(4) eq have tr: "transient_failure (cl calls model_name prompt timeout)"
    by (auto dest: spec [of _ 1024])
  from eq big have lt: "attempt < max_retries" "attempt < max_retries + 1" by simp_all
  have st: "attempt_step sleep (cl calls model_name prompt timeout) model_name models attempt
              max_retries timeout ib = Raise (OverflowError ''int too large to convert to float'')"
    using attempt_step_transient_overflow [OF tr lt(1)] eq by simp
  from retry_loop_Raise [where cl = cl and calls = calls, OF lt(2) st] show ?case by blast
next
  case (Suc n)
  then have small: "attempt < 1024" by simp
  with big have lt: "attempt < max_retries" "attempt < max_retries + 1" by simp_all
  from Suc.prems(4) small have tr: "transient_failure (cl calls model_name prompt timeout)"
    by (auto dest: spec [of _ attempt])
  from small Suc.prems(2) have "nat attempt < 1024" by simp
  with sl have acc: "sleep (ib * 2 ^ nat attempt) = None" by blast
  have st: "attempt_step sleep (cl calls model_name prompt timeout) model_name models attempt
              max_retries timeout ib = Continue (ib * 2 ^ nat attempt)"
    using attempt_step_transient_retry [where sleep = sleep and ib = ib, OF tr lt(1) small acc] .
  have hyp: "\<forall>j. attempt + 1 \<le> j \<and> j \<le> 1024 \<longrightarrow>
       transient_failure (cl (Suc calls + nat (j - (attempt + 1))) model_name prompt timeout)"
  proof (intro allI impI)
    fix j assume j: "attempt + 1 \<le> j \<and> j \<le> 1024"
    then have eq: "Suc calls + nat (j - (attempt + 1)) = calls + nat (j - attempt)"
      using Suc.prems(2) by arith
    from j have "attempt \<le> j \<and> j \<le> 1024" by simp
    with Suc.prems(4)
    have "transient_failure (cl (calls + nat (j - attempt)) model_name prompt timeout)"
      by blast
    then show
      "transient_failure (cl (Suc calls + nat (j - (attempt + 1))) model_name prompt timeout)"
      unfolding eq .
  qed
  from Suc.prems have n: "n = nat (1024 - (attempt + 1))" by simp
  from Suc.IH [OF n _ _ hyp] Suc.prems(2) small
  obtain evs c where rec:
    "retry_loop sleep cl prompt timeout max_retries ib models model_name (attempt + 1) (Suc calls) =
       (Some (OverflowError ''int too large to convert to float''), evs, c)"
    by auto
  from retry_loop_Continue [where cl = cl and calls = calls, OF lt(2) st rec]
  show ?case by blast
qed

text \<open>
  C4, as amended. The candidate models are the primary model alone when it is not "gpt-4",
  and "gpt-4" followed by "gpt-3.5-turbo" when it is. With "gpt-4" as the primary model and
  \<open>max_retries\<close> from 0 to 1024, when each of the first \<open>max_retries + 1\<close> calls fails
  with a failure that the code retries and \<open>time.sleep\<close> accepts every backoff
  \<open>initial_backoff * 2 ^ a\<close> for \<open>a\<close> below \<open>max_retries\<close>, the attempts of the run are
  exactly \<open>max_retries + 1\<close> attempts on "gpt-4", of indices 0 to \<open>max_retries\<close>, then
  an attempt of index 0 on "gpt-3.5-turbo", then attempts on "gpt-3.5-turbo" only.
\<close>

theorem premium_fallback:
  "candidate_models ''gpt-4'' = [''gpt-4'', ''gpt-3.5-turbo''] \<and>
   (model \<noteq> ''gpt-4'' \<longrightarrow> candidate_models model = [model]) \<and>
   (0 \<le> max_retries \<and> max_retries \<le> 1024 \<and>
    (\<forall>a<nat max_retries. sleep (initial_backoff * 2 ^ a) = None) \<and>
    (\<forall>k\<le>nat max_retries. transient_failure (cl k ''gpt-4'' prompt timeout))
    \<longrightarrow> (\<exists>rest.
           attempts_of (snd (call_openai_api sleep cl prompt ''gpt-4'' timeout max_retries
                               initial_backoff)) =
             map (\<lambda>k. (''gpt-4'', int k)) [0 ..< nat max_retries + 1]
             @ (''gpt-3.5-turbo'', 0) # rest \<and>
           set (map fst rest) \<subseteq> {''gpt-3.5-turbo''}))"
proof (intro conjI)
  show "candidate_models ''gpt-4'' = [''gpt-4'', ''gpt-3.5-turbo'']"
    by (simp add: candidate_models_def)
  show "model \<noteq> ''gpt-4'' \<longrightarrow> candidate_models model = [model]"
    by (simp add: candidate_models_def)
  show "0 \<le> max_retries \<and> max_retries \<le> 1024 \<and>
    (\<forall>a<nat max_retries. sleep (initial_backoff * 2 ^ a) = None) \<and>
    (\<forall>k\<le>nat max_retries. transient_failure (cl k ''gpt-4'' prompt timeout))
    \<longrightarrow> (\<exists>rest.
           attempts_of (snd (call_openai_api sleep cl prompt ''gpt-4'' timeout max_retries
                               initial_backoff)) =
             map (\<lambda>k. (''gpt-4'', int k)) [0 ..< nat max_retries + 1]
             @ (''gpt-3.5-turbo'', 0) # rest \<and>
           set (map fst rest) \<subseteq> {''gpt-3.5-turbo''})"
  proof (rule impI)
    assume a: "0 \<le> max_retries \<and> max_retries \<le> 1024 \<and>
      (\<forall>a<nat max_retries. sleep (initial_backoff * 2 ^ a) = None) \<and>
      (\<forall>k\<le>nat max_retries. transient_failure (cl k ''gpt-4'' prompt timeout))"
    let ?ms = "[''gpt-4'', ''gpt-3.5-turbo'']"
    have cm: "candidate_models ''gpt-4'' = ?ms" by (simp add: candidate_models_def)
    have fb: "''gpt-3.5-turbo'' \<in> set ?ms" by simp
    from a have mr: "max_retries \<le> 1024"
      and sl: "\<forall>a<nat max_retries. sleep (initial_backoff * 2 ^ a) = None" by simp_all
    have hyp: "\<forall>j. 0 \<le> j \<and> j \<le> max_retries \<longrightarrow>
       transient_failure (cl (0 + nat (j - 0)) ''gpt-4'' prompt timeout)"
      using a by (auto simp: nat_le_eq_zle)
    from retry_loop_premium
      [where models = ?ms and ib = initial_backoff and n = "nat (max_retries - 0)"
         and max_retries = max_retries and attempt = 0 and cl = cl and calls = 0
         and prompt = prompt and timeout = timeout and sleep = sleep,
       OF fb mr sl refl _ _ hyp] a
    obtain evs1 where l1:
      "retry_loop sleep cl prompt timeout max_retries initial_backoff ?ms ''gpt-4'' 0 0 =
         (None, evs1, nat (max_retries + 1))"
      and a1: "attempts_of evs1 = map (\<lambda>k. (''gpt-4'', int k)) [0 ..< nat (max_retries + 1)]"
      by auto
    obtain r2 evs2 c2 where l2:
      "retry_loop sleep cl prompt timeout max_retries initial_backoff ?ms ''gpt-3.5-turbo'' 0
         (nat (max_retries + 1)) = (r2, evs2, c2)"
      using prod_cases3 by blast
    from retry_loop_attempts [OF l2] a
    obtain rest where a2: "attempts_of evs2 = (''gpt-3.5-turbo'', 0) # rest"
      and sub: "set (map fst (attempts_of evs2)) \<subseteq> {''gpt-3.5-turbo''}"
      by auto
    have "snd (model_loop sleep cl prompt timeout max_retries initial_backoff ?ms
            [''gpt-3.5-turbo''] (nat (max_retries + 1))) = evs2"
      using model_loop_Cons [OF l2, of "[]"] by (cases r2) simp_all
    with model_loop_Cons [OF l1, of "[''gpt-3.5-turbo'']"]
    have "snd (model_loop sleep cl prompt timeout max_retries initial_backoff ?ms ?ms 0) =
        evs1 @ evs2"
      by simp
    moreover have "snd (call_openai_api sleep cl prompt ''gpt-4'' timeout max_retries
        initial_backoff) =
        snd (model_loop sleep cl prompt timeout max_retries initial_backoff ?ms ?ms 0)"
      by (simp add: call_openai_api_def cm Let_def split: prod.splits)
    ultimately have "attempts_of (snd (call_openai_api sleep cl prompt ''gpt-4'' timeout
        max_retries initial_backoff)) =
        map (\<lambda>k. (''gpt-4'', int k)) [0 ..< nat (max_retries + 1)] @ (''gpt-3.5-turbo'', 0) # rest"
      using a1 a2 by (simp add: attempts_of_append)
    moreover have "nat (max_retries + 1) = nat max_retries + 1" using a by (simp add: nat_add_distrib)
    moreover from sub a2 have "set (map fst rest) \<subseteq> {''gpt-3.5-turbo''}" by simp
    ultimately show "\<exists>rest.
           attempts_of (snd (call_openai_api sleep cl prompt ''gpt-4'' timeout max_retries
                               initial_backoff)) =
             map (\<lambda>k. (''gpt-4'', int k)) [0 ..< nat max_retries + 1]
             @ (''gpt-3.5-turbo'', 0) # rest \<and>
           set (map fst rest) \<subseteq> {''gpt-3.5-turbo''}"
      by auto
  qed
qed

theorem premium_fallback_witness:
  "''gpt-4-turbo'' \<noteq> ''gpt-4'' \<and> candidate_models ''gpt-4-turbo'' = [''gpt-4-turbo''] \<and>
   (0::int) \<le> 1 \<and> (1::int) \<le> 1024 \<and> time_sleep 9223372036 (1 * 2 ^ 0) = None \<and>
   transient_failure (Raises (APITimeoutError ''Request timed out'')) \<and>
   take 3 (attempts_of (snd (call_openai_api (time_sleep 9223372036)
      (\<lambda>n m p t. Raises (APITimeoutError ''Request timed out''))
      ''Test prompt'' ''gpt-4'' 120 1 1))) =
     [(''gpt-4'', 0), (''gpt-4'', 1), (''gpt-3.5-turbo'', 0)]"
proof -
  have sl: "time_sleep 9223372036 (1 * 2 ^ 0) = None" by (simp add: time_sleep_def)
  from premium_fallback
    [of "''gpt-4-turbo''" 1 "time_sleep 9223372036" 1
        "\<lambda>n m p t. Raises (APITimeoutError ''Request timed out'')" "''Test prompt''" 120] sl
  have cm: "candidate_models ''gpt-4-turbo'' = [''gpt-4-turbo'']"
    and ex: "\<exists>rest.
      attempts_of (snd (call_openai_api (time_sleep 9223372036)
         (\<lambda>n m p t. Raises (APITimeoutError ''Request timed out''))
         ''Test prompt'' ''gpt-4'' 120 1 1)) =
        [(''gpt-4'', 0), (''gpt-4'', 1)] @ (''gpt-3.5-turbo'', 0) # rest"
    by (auto simp: upt_rec)
  from ex obtain rest where
    "attempts_of (snd (call_openai_api (time_sleep 9223372036)
         (\<lambda>n m p t. Raises (APITimeoutError ''Request timed out''))
         ''Test prompt'' ''gpt-4'' 120 1 1)) =
        [(''gpt-4'', 0), (''gpt-4'', 1)] @ (''gpt-3.5-turbo'', 0) # rest"
    by blast
  with cm sl show ?thesis by simp
qed

text \<open>
  C4 as stated fails. An \<open>APIError\<close> that names neither the authentication nor one of the
  codes 500, 502, 503, 504 and 429 is not retried: on "gpt-4" with three retries allowed,
  the run is one attempt and the call raises, without an attempt on "gpt-3.5-turbo". With
  a timeout on every call and an initial backoff of -1, which \<open>time.sleep\<close> refuses,
  the run is one attempt too. With a rate limit on every call, 1025 retries allowed and an
  initial backoff of 0, the backoff of the attempt of index 1024 overflows: the call raises
  and every attempt is on "gpt-4".
\<close>

theorem fallback_not_reached_counterexample:
  "call_openai_api (time_sleep 9223372036) (\<lambda>n m p t. Raises (APIError ''Bad request''))
     ''Test prompt'' ''gpt-4'' 120 3 1 =
   (Inl (Exception ''OpenAI API call failed: OpenAI API error for gpt-4: Bad request''),
    [Attempt ''gpt-4'' 0 (Raises (APIError ''Bad request''))]) \<and>
   call_openai_api (time_sleep 9223372036)
     (\<lambda>n m p t. Raises (APITimeoutError ''Request timed out''))
     ''Test prompt'' ''gpt-4'' 120 3 (- 1) =
   (Inl (ValueError ''sleep length must be non-negative''),
    [Attempt ''gpt-4'' 0 (Raises (APITimeoutError ''Request timed out''))]) \<and>
   fst (call_openai_api (time_sleep 9223372036)
     (\<lambda>n m p t. Raises (RateLimitError ''Rate limit''))
     ''Test prompt'' ''gpt-4'' 120 1025 0) =
     Inl (Exception ''OpenAI API call failed: int too large to convert to float'') \<and>
   set (map fst (attempts_of (snd (call_openai_api (time_sleep 9223372036)
     (\<lambda>n m p t. Raises (RateLimitError ''Rate limit''))
     ''Test prompt'' ''gpt-4'' 120 1025 0)))) \<subseteq> {''gpt-4''}"
proof -
  have na: "\<not> is_authentication ''Bad request''" by code_simp
  have nt: "\<not> is_transient ''Bad request''" by code_simp
  have one: "call_openai_api (time_sleep 9223372036) (\<lambda>n m p t. Raises (APIError ''Bad request''))
     ''Test prompt'' ''gpt-4'' 120 3 1 =
   (Inl (Exception ''OpenAI API call failed: OpenAI API error for gpt-4: Bad request''),
    [Attempt ''gpt-4'' 0 (Raises (APIError ''Bad request''))])"
    using na nt
    by (simp add: call_openai_api_def candidate_models_def retry_loop.simps attempt_step_def
          on_exception_def Let_def)
  have two: "call_openai_api (time_sleep 9223372036)
     (\<lambda>n m p t. Raises (APITimeoutError ''Request timed out''))
     ''Test prompt'' ''gpt-4'' 120 3 (- 1) =
   (Inl (ValueError ''sleep length must be non-negative''),
    [Attempt ''gpt-4'' 0 (Raises (APITimeoutError ''Request timed out''))])"
    by (simp add: call_openai_api_def candidate_models_def retry_loop.simps attempt_step_def
          on_exception_def sleep_and_continue_def backoff_time_def time_sleep_def Let_def)
  let ?cl = "\<lambda>(n::nat) (m::string) (p::string) (t::int). Raises (RateLimitError ''Rate limit'')"
  let ?ms = "[''gpt-4'', ''gpt-3.5-turbo'']"
  have sl: "\<forall>a<1024. time_sleep 9223372036 (0 * 2 ^ a) = None"
    by (simp add: time_sleep_def)
  from retry_loop_overflow
    [where sleep = "time_sleep 9223372036" and ib = 0 and max_retries = 1025 and attempt = 0
       and n = "nat (1024 - 0)" and cl = ?cl and calls = 0 and model_name = "''gpt-4''"
       and prompt = "''Test prompt''" and timeout = 120 and models = ?ms, OF _ sl refl]
  obtain evs c where loop:
    "retry_loop (time_sleep 9223372036) ?cl ''Test prompt'' 120 1025 0 ?ms ''gpt-4'' 0 0 =
       (Some (OverflowError ''int too large to convert to float''), evs, c)"
    by auto
  from retry_loop_attempts [OF loop]
  have att: "set (map fst (attempts_of evs)) \<subseteq> {''gpt-4''}" by simp
  from model_loop_Cons [OF loop, of "[''gpt-3.5-turbo'']"]
  have "model_loop (time_sleep 9223372036) ?cl ''Test prompt'' 120 1025 0 ?ms ?ms 0 =
      (OverflowError ''int too large to convert to float'', evs)"
    by simp
  then have three: "call_openai_api (time_sleep 9223372036) ?cl ''Test prompt'' ''gpt-4'' 120 1025 0 =
      (Inl (Exception ''OpenAI API call failed: int too large to convert to float''), evs)"
    by (simp add: call_openai_api_def candidate_models_def)
  from one two three att show ?thesis by simp
qed

end
